theory Spec2Isabelle
  imports Complex_Main "HOL-Library.List_Lexorder" "HOL-Library.Char_ord"
begin

section \<open>Concur: the command-line front end of the .ICO/.CUR generator\<close>

text \<open>
  A shallow embedding of \<^verbatim>\<open>src/concur_app.cpp\<close>: the constructor
  \<^verbatim>\<open>ConcurApp::ConcurApp(int argc, char** argv)\<close>, which registers one handler per
  command-line option and lets the \<^verbatim>\<open>be::cli::Processor\<close> call them in argument order, and
  \<^verbatim>\<open>ConcurApp::operator()()\<close>, which checks the input paths and prepares the output path.

  The libraries the file calls (\<^verbatim>\<open>be::cli\<close>, \<^verbatim>\<open>be::util\<close>, the filesystem library,
  the logger) are not part of the file. They enter the model at their interface: the
  command line is the sequence of handler calls the processor makes, the filesystem is a
  record of oracles that answer or throw, and every exception is a value.
\<close>

subsection \<open>Data\<close>

text \<open>\<^verbatim>\<open>S\<close> and \<^verbatim>\<open>Path\<close>: a path is identified with the string it was built from.\<close>

type_synonym path = string

text \<open>\<^verbatim>\<open>enum class input_type\<close>, as the handlers of lines 39-56 use it.\<close>

datatype input_type = automatic | png | bitmap

text \<open>
  \<^verbatim>\<open>glm::vec2\<close> with its members \<^verbatim>\<open>.x\<close> and \<^verbatim>\<open>.y\<close>. An \<^verbatim>\<open>F32\<close> is modelled by the rational
  it denotes; the handlers only store and copy the parsed numbers.
\<close>

record vec2 =
  vx :: rat
  vy :: rat

text \<open>
  The exception classes that the \<^verbatim>\<open>catch\<close> blocks of the file name. All of them are
  caught by every \<^verbatim>\<open>try\<close> of the file (\<^verbatim>\<open>filesystem_error\<close>, \<^verbatim>\<open>OptionException\<close> and
  \<^verbatim>\<open>ArgumentException\<close> by their own handler or as a \<^verbatim>\<open>std::exception\<close>).
\<close>

datatype exn =
    OptionException | ArgumentException | Fatal | Recoverable | std_exception
  | filesystem_error

text \<open>
  Modelled from the spec: the member declarations of \<^verbatim>\<open>ConcurApp\<close> (\<^verbatim>\<open>concur_app.hpp\<close>) are
  not among the sources. The spec calls both containers mappings with a unique key
  (\<open>a mapping from source file path to an explicit encoding hint\<close>, \<open>requests are stored by
  edge length as the unique key\<close>, \<open>an explicit ordered-map keyed by edge length\<close>), and the
  source indexes them with \<^verbatim>\<open>operator[]\<close> and iterates over \<^verbatim>\<open>inputs_\<close> as pairs: they are
  ordered maps. An ordered map is the list of its entries in ascending key order, one entry
  per key. The keys of \<^verbatim>\<open>inputs_\<close> are paths (line 240 binds the key as \<^verbatim>\<open>const Path&\<close>): an
  entry keeps the string of its path, and the container compares keys as \<^verbatim>\<open>Path\<close> does, not
  as strings (see \<open>path_key\<close> below). The initial \<^verbatim>\<open>status_\<close> is 0 (exit code 0: \<open>There were no errors\<close>). The
  members are \<^verbatim>\<open>status_\<close>, \<^verbatim>\<open>inputs_\<close>, \<^verbatim>\<open>output_sizes_\<close> and \<^verbatim>\<open>output_path_\<close> in the source (a
  name cannot end with an underscore here).
\<close>

record ConcurApp =
  status :: int
  inputs :: "(path \<times> input_type) list"
  output_sizes :: "(nat \<times> vec2) list"
  output_path :: path

text \<open>\<^verbatim>\<open>m[k] = v\<close> on an ordered map: overwrite the entry of \<open>k\<close>, or insert it in key order.\<close>

fun map_assign :: "'k::linorder \<Rightarrow> 'v \<Rightarrow> ('k \<times> 'v) list \<Rightarrow> ('k \<times> 'v) list" where
  "map_assign k v [] = [(k, v)]"
| "map_assign k v (e # m) =
     (if k < fst e then (k, v) # e # m
      else if k = fst e then (k, v) # m
      else e # map_assign k v m)"

text \<open>
  The same on a map whose keys are paths. \<open>key\<close> gives what the comparison of \<^verbatim>\<open>Path\<close>
  looks at: two paths are the same key when their \<open>key\<close> is the same, and are ordered as
  their \<open>key\<close>s are. Assigning to a key that is present overwrites the value and leaves the
  stored path as it is.
\<close>

fun path_assign ::
    "(path \<Rightarrow> 'k::linorder) \<Rightarrow> path \<Rightarrow> 'v \<Rightarrow> (path \<times> 'v) list \<Rightarrow> (path \<times> 'v) list" where
  "path_assign key p v [] = [(p, v)]"
| "path_assign key p v (e # m) =
     (if key p < key (fst e) then (p, v) # e # m
      else if key p = key (fst e) then (fst e, v) # m
      else e # path_assign key p v m)"

definition ConcurApp_init :: ConcurApp where
  "ConcurApp_init = \<lparr>status = 0, inputs = [], output_sizes = [], output_path = []\<rparr>"

subsection \<open>The constructor: option handlers\<close>

text \<open>
  The local variables of the constructor that the handlers capture by reference
  (lines 25-29), \<^verbatim>\<open>proc.verbose\<close>, and the object under construction.
\<close>

record ctor_state =
  app :: ConcurApp
  hotspot :: vec2
  show_version :: bool
  show_help :: bool
  help_query :: string
  proc_verbose :: bool

text \<open>
  One constructor per handler the file registers, in the order of lines 39-141; its
  argument is the string the processor passes to the handler. \<open>Nth0\<close> is the first
  positional argument (\<^verbatim>\<open>nth (0, ...)\<close>), \<open>Help\<close> the \<^verbatim>\<open>-?\<close>/\<^verbatim>\<open>--help\<close> parameter, \<open>Help_verbose\<close>
  the \<^verbatim>\<open>--help\<close> flag. \<open>Verbosity\<close> is the library's \<^verbatim>\<open>verbosity_param\<close>, which changes the
  log's mask only. \<open>Rejected e\<close> stands for an argument at which the processor itself
  throws \<open>e\<close> (an unknown option, a missing value).
\<close>

datatype cli_arg =
    Input string | Png string | Bmp string
  | Hotspot_x string | Hotspot_y string
  | Size string
  | Small | Medium | Normal | Large | Extra_large | All
  | Nth0 string
  | Verbosity string
  | Version
  | Help string
  | Help_verbose
  | Rejected exn

text \<open>
  The library functions the handlers rely on, none of them among the sources; the model
  takes them as parameters. \<^verbatim>\<open>be::util::parse_bounded_numeric_string<T>(str, min, max)\<close>
  is called at \<^verbatim>\<open>U16\<close> and at \<^verbatim>\<open>F32\<close>: for a string and the two bounds, the number the call
  returns or the exception it throws. \<open>path_key\<close> is the comparison of \<^verbatim>\<open>Path\<close>, the key
  type of \<^verbatim>\<open>inputs_\<close>: it maps the string of a path to what \<^verbatim>\<open>Path\<close> compares (the sequence
  of its elements, in the filesystem library), so that \<^verbatim>\<open>a//b\<close> and \<^verbatim>\<open>a/b\<close> may be one key.
\<close>

record 'k library =
  parse_U16 :: "string \<Rightarrow> nat \<Rightarrow> nat \<Rightarrow> exn + nat"
  parse_F32 :: "string \<Rightarrow> rat \<Rightarrow> rat \<Rightarrow> exn + rat"
  path_key :: "path \<Rightarrow> 'k"

text \<open>\<^verbatim>\<open>inputs_[str] = t;\<close>\<close>

definition set_input ::
    "('k::linorder) library \<Rightarrow> path \<Rightarrow> input_type \<Rightarrow> ctor_state \<Rightarrow> ctor_state" where
  "set_input lx str t s =
     s\<lparr>app := (app s)\<lparr>inputs := path_assign (path_key lx) str t (inputs (app s))\<rparr>\<rparr>"

text \<open>\<^verbatim>\<open>output_sizes_[size] = hotspot;\<close>\<close>

definition set_size :: "nat \<Rightarrow> ctor_state \<Rightarrow> ctor_state" where
  "set_size sz s =
     s\<lparr>app := (app s)\<lparr>output_sizes := map_assign sz (hotspot s) (output_sizes (app s))\<rparr>\<rparr>"

text \<open>
  The handlers (lines 39-141). A handler that throws has changed nothing: the parse comes
  before the assignment.
\<close>

fun handler :: "('k::linorder) library \<Rightarrow> cli_arg \<Rightarrow> ctor_state \<Rightarrow> exn + ctor_state" where
  "handler lx (Input str) s = Inr (set_input lx str automatic s)"
| "handler lx (Png str) s = Inr (set_input lx str png s)"
| "handler lx (Bmp str) s = Inr (set_input lx str bitmap s)"
| "handler lx (Hotspot_x str) s =
     (case parse_F32 lx str 0 1 of
        Inl e \<Rightarrow> Inl e
      | Inr v \<Rightarrow> Inr (s\<lparr>hotspot := (hotspot s)\<lparr>vx := v\<rparr>\<rparr>))"
| "handler lx (Hotspot_y str) s =
     (case parse_F32 lx str 0 1 of
        Inl e \<Rightarrow> Inl e
      | Inr v \<Rightarrow> Inr (s\<lparr>hotspot := (hotspot s)\<lparr>vy := v\<rparr>\<rparr>))"
| "handler lx (Size str) s =
     (case parse_U16 lx str 1 256 of
        Inl e \<Rightarrow> Inl e
      | Inr sz \<Rightarrow> Inr (set_size sz s))"
| "handler lx Small s = Inr (set_size 16 s)"
| "handler lx Medium s = Inr (set_size 24 s)"
| "handler lx Normal s = Inr (set_size 32 s)"
| "handler lx Large s = Inr (set_size 48 s)"
| "handler lx Extra_large s = Inr (set_size 256 s)"
| "handler lx All s =
     Inr (set_size 256 (set_size 48 (set_size 32 (set_size 24 (set_size 16 s)))))"
| "handler lx (Nth0 str) s = Inr (s\<lparr>app := (app s)\<lparr>output_path := str\<rparr>\<rparr>)"
| "handler lx (Verbosity str) s = Inr s"
| "handler lx Version s = Inr (s\<lparr>show_version := True\<rparr>)"
| "handler lx (Help v) s = Inr (s\<lparr>show_help := True, help_query := v\<rparr>)"
| "handler lx Help_verbose s = Inr (s\<lparr>proc_verbose := True\<rparr>)"
| "handler lx (Rejected e) s = Inl e"

text \<open>
  \<^verbatim>\<open>proc(argc, argv)\<close> (line 165): the handlers run in argument order; the first
  exception ends the run and leaves the state as the handlers before it made it.
\<close>

fun proc :: "('k::linorder) library \<Rightarrow> cli_arg list \<Rightarrow> ctor_state \<Rightarrow> exn option \<times> ctor_state" where
  "proc lx [] s = (None, s)"
| "proc lx (a # as) s =
     (case handler lx a s of
        Inl e \<Rightarrow> (Some e, s)
      | Inr s' \<Rightarrow> proc lx as s')"

text \<open>
  What the constructor writes: the error of a \<^verbatim>\<open>catch\<close> block to the log, or
  \<^verbatim>\<open>proc.describe\<close> to standard output. \<open>Describe q l\<close> is \<^verbatim>\<open>proc.describe(std::cout, q)\<close>
  with the licence sections registered (line 173-179) or not.
\<close>

datatype ctor_output =
    Describe string bool
  | Describe_prologue_license
  | Log_parse_error exn

definition ctor_start :: "vec2 \<Rightarrow> ctor_state" where
  "ctor_start h0 =
     \<lparr>app = ConcurApp_init, hotspot = h0, show_version = False, show_help = False,
      help_query = [], proc_verbose = False\<rparr>"

text \<open>Lines 167-171.\<close>

definition no_output_path :: "ctor_state \<Rightarrow> ctor_state" where
  "no_output_path s =
     (if \<not> show_help s \<and> \<not> show_version s \<and> output_path (app s) = []
      then s\<lparr>show_help := True, show_version := True, app := (app s)\<lparr>status := 1\<rparr>\<rparr>
      else s)"

text \<open>Lines 173-186.\<close>

definition describe :: "ctor_state \<Rightarrow> ctor_output list" where
  "describe s =
     (if show_help s then [Describe (help_query s) (show_version s)]
      else if show_version s then [Describe_prologue_license]
      else [])"

text \<open>
  The constructor. \<open>h0\<close> is the value of the local \<^verbatim>\<open>glm::vec2 hotspot;\<close> of line 25, which
  the file never initialises itself. Writing the description (lines 173-186) is taken not
  to throw.
\<close>

definition ConcurApp_ctor :: "('k::linorder) library \<Rightarrow> vec2 \<Rightarrow> cli_arg list \<Rightarrow> ConcurApp \<times> ctor_output list" where
  "ConcurApp_ctor lx h0 args =
     (case proc lx args (ctor_start h0) of
        (Some e, s) \<Rightarrow> ((app s)\<lparr>status := 2\<rparr>, [Log_parse_error e])
      | (None, s) \<Rightarrow> (app (no_output_path s), describe (no_output_path s)))"

subsection \<open>\<^verbatim>\<open>operator()\<close>: checking the inputs and preparing the output path\<close>

text \<open>
  The filesystem, as the file sees it. \<open>fs_status\<close> is the kind of file a path names:
  \<^verbatim>\<open>fs::exists(p)\<close> holds when it is not \<open>missing\<close>, \<^verbatim>\<open>fs::is_regular_file(p)\<close> when it is
  \<open>regular_file\<close>, and both throw where \<open>fs_status\<close> gives an exception.
  \<^verbatim>\<open>fs::absolute\<close>, \<^verbatim>\<open>Path::parent_path\<close> and \<^verbatim>\<open>fs::create_directories\<close> are oracles too
  (\<open>Some e\<close>: the call throws \<open>e\<close>).
\<close>

datatype node = missing | regular_file | other

record filesystem =
  fs_status :: "path \<Rightarrow> exn + node"
  fs_absolute :: "path \<Rightarrow> exn + path"
  fs_parent_path :: "path \<Rightarrow> path"
  fs_create_directories :: "path \<Rightarrow> exn option"

text \<open>
  What a run does, in order: the filesystem calls it makes and the messages it logs
  (\<open>Log_error\<close> with its \<^verbatim>\<open>log_attr_path\<close>, \<open>Log_exception\<close> from a \<^verbatim>\<open>catch\<close> block,
  \<open>Log_output_path\<close> for the \<^verbatim>\<open>be_short_verbose\<close> of line 303).
\<close>

datatype event =
    Exists path
  | Is_regular_file path
  | Absolute path
  | Create_directories path
  | Log_error string path
  | Log_exception string exn
  | Log_output_path path

definition emit :: "event list \<Rightarrow> 'a \<times> 'b \<times> event list \<Rightarrow> 'a \<times> 'b \<times> event list" where
  "emit evs r = (case r of (e, v, tr) \<Rightarrow> (e, v, evs @ tr))"

text \<open>
  The loop of lines 239-256 over \<^verbatim>\<open>inputs_\<close>, from the \<^verbatim>\<open>status_\<close> it starts with: the
  exception that ended it (if any), the \<^verbatim>\<open>status_\<close> it leaves and its events.
\<close>

fun check_inputs ::
    "filesystem \<Rightarrow> (path \<times> input_type) list \<Rightarrow> int \<Rightarrow> exn option \<times> int \<times> event list" where
  "check_inputs fs [] st = (None, st, [])"
| "check_inputs fs (pair # rest) st =
     (case fs_status fs (fst pair) of
        Inl e \<Rightarrow> (Some e, st, [Exists (fst pair)])
      | Inr n \<Rightarrow>
          if n = missing then
            emit [Exists (fst pair), Log_error ''Input path does not exist!'' (fst pair)]
              (check_inputs fs rest 3)
          else if n \<noteq> regular_file then
            emit [Exists (fst pair), Is_regular_file (fst pair),
                  Log_error ''Input path is not a file!'' (fst pair)]
              (check_inputs fs rest 3)
          else
            emit [Exists (fst pair), Is_regular_file (fst pair)]
              (check_inputs fs rest st))"

text \<open>The \<^verbatim>\<open>try\<close> of lines 238-284: every exception is caught and sets \<^verbatim>\<open>status_ = 4\<close>.\<close>

definition read_inputs :: "filesystem \<Rightarrow> ConcurApp \<Rightarrow> int \<times> event list" where
  "read_inputs fs a =
     (case check_inputs fs (inputs a) (status a) of
        (None, st, tr) \<Rightarrow> (st, tr)
      | (Some e, st, tr) \<Rightarrow> (4, tr @ [Log_exception ''while reading inputs!'' e]))"

text \<open>
  The body of the \<^verbatim>\<open>try\<close> of lines 290-313, from the \<^verbatim>\<open>output_path_\<close> and \<^verbatim>\<open>status_\<close> it
  starts with: the exception that ended it (if any), the pair of \<^verbatim>\<open>output_path_\<close> and
  \<^verbatim>\<open>status_\<close> it leaves, and its events.
\<close>

definition configure_output ::
    "filesystem \<Rightarrow> path \<Rightarrow> int \<Rightarrow> exn option \<times> (path \<times> int) \<times> event list" where
  "configure_output fs out st =
     (case fs_absolute fs out of
        Inl e \<Rightarrow> (Some e, (out, st), [Absolute out])
      | Inr p \<Rightarrow>
          emit [Absolute out]
           (case fs_status fs p of
              Inl e \<Rightarrow> (Some e, (p, st), [Exists p])
            | Inr n \<Rightarrow>
                emit [Exists p]
                 (if n \<noteq> missing then
                    (if n \<noteq> regular_file then
                       (None, (p, 5),
                        [Is_regular_file p,
                         Log_error ''Output path already exists and is not a file!'' p,
                         Log_output_path p])
                     else (None, (p, st), [Is_regular_file p, Log_output_path p]))
                  else
                    (case fs_status fs (fs_parent_path fs p) of
                       Inl e \<Rightarrow> (Some e, (p, st), [Exists (fs_parent_path fs p)])
                     | Inr m \<Rightarrow>
                         emit [Exists (fs_parent_path fs p)]
                          (if m = missing then
                             (case fs_create_directories fs (fs_parent_path fs p) of
                                Some e \<Rightarrow>
                                  (Some e, (p, st), [Create_directories (fs_parent_path fs p)])
                              | None \<Rightarrow>
                                  (None, (p, st),
                                   [Create_directories (fs_parent_path fs p),
                                    Log_output_path p]))
                           else (None, (p, st), [Log_output_path p]))))))"

text \<open>The \<^verbatim>\<open>try\<close> of lines 290-338: every exception is caught and sets \<^verbatim>\<open>status_ = 1\<close>.\<close>

definition write_output :: "filesystem \<Rightarrow> path \<Rightarrow> int \<Rightarrow> (path \<times> int) \<times> event list" where
  "write_output fs out st =
     (case configure_output fs out st of
        (None, r, tr) \<Rightarrow> (r, tr)
      | (Some e, r, tr) \<Rightarrow> ((fst r, 1), tr @ [Log_exception ''while configuring paths!'' e]))"

text \<open>
  \<^verbatim>\<open>int ConcurApp::operator()()\<close>: the value it returns, the object as it leaves it, and
  the events of the run.
\<close>

definition ConcurApp_call :: "filesystem \<Rightarrow> ConcurApp \<Rightarrow> int \<times> ConcurApp \<times> event list" where
  "ConcurApp_call fs a =
     (if status a \<noteq> 0 then (status a, a, [])
      else if output_path a = [] then (status a, a, [])
      else
        (case read_inputs fs a of
           (st1, tr1) \<Rightarrow>
             (case write_output fs (output_path a) st1 of
                ((out, st2), tr2) \<Rightarrow>
                  (st2, a\<lparr>status := st2, output_path := out\<rparr>, tr1 @ tr2))))"

text \<open>
  Modelled from the spec: \<^verbatim>\<open>main\<close> is not among the sources. The exit codes the
  constructor documents (lines 143-148) are the values of \<^verbatim>\<open>status_\<close>: the process
  constructs the application from the command line and exits with what calling it returns.
\<close>

definition exit_status :: "('k::linorder) library \<Rightarrow> vec2 \<Rightarrow> filesystem \<Rightarrow> cli_arg list \<Rightarrow> int" where
  "exit_status lx h0 fs args = fst (ConcurApp_call fs (fst (ConcurApp_ctor lx h0 args)))"

subsection \<open>The bounded parser\<close>

text \<open>
  Modelled from the spec: \<^verbatim>\<open>be::util::parse_bounded_numeric_string<T>(str, min, max)\<close> is
  not among the sources. The spec gives the ranges as the values the command line
  provides (\<open>edge length (integer, 1-256)\<close>, \<open>edge_length: u16 (1..=256)\<close>, a hotspot
  \<open>each in [0,1]\<close>): the function returns the number the string denotes when that number
  lies within the bounds, both included, and throws otherwise. What a string denotes is
  left to \<open>lexer\<close> (\<open>None\<close>: the string is not a number of type \<^verbatim>\<open>T\<close>).
\<close>

definition parse_bounded_numeric_string ::
    "(string \<Rightarrow> 'a option) \<Rightarrow> string \<Rightarrow> 'a::linorder \<Rightarrow> 'a \<Rightarrow> exn + 'a" where
  "parse_bounded_numeric_string lexer str lo hi =
     (case lexer str of
        None \<Rightarrow> Inl Recoverable
      | Some v \<Rightarrow> if lo \<le> v \<and> v \<le> hi then Inr v else Inl Recoverable)"

text \<open>
  Modelled from the spec: the library with the two instances of
  \<open>parse_bounded_numeric_string\<close> that the handlers call, each over its lexer; the
  comparison of paths stays a parameter.
\<close>

definition bounded_parsers ::
    "(string \<Rightarrow> nat option) \<Rightarrow> (string \<Rightarrow> rat option) \<Rightarrow> (path \<Rightarrow> 'k) \<Rightarrow> 'k library" where
  "bounded_parsers lex_U16 lex_F32 key =
     \<lparr>parse_U16 = parse_bounded_numeric_string lex_U16,
      parse_F32 = parse_bounded_numeric_string lex_F32,
      path_key = key\<rparr>"

subsection \<open>Notions the properties are stated with\<close>

text \<open>
  The edge lengths an argument declares: the keys its handler assigns in
  \<^verbatim>\<open>output_sizes_\<close> (none for an argument that is no size declaration, or whose number is
  refused).
\<close>

fun declared_sizes :: "('k::linorder) library \<Rightarrow> cli_arg \<Rightarrow> nat list" where
  "declared_sizes lx (Size str) =
     (case parse_U16 lx str 1 256 of
        Inl e \<Rightarrow> []
      | Inr sz \<Rightarrow> [sz])"
| "declared_sizes lx Small = [16]"
| "declared_sizes lx Medium = [24]"
| "declared_sizes lx Normal = [32]"
| "declared_sizes lx Large = [48]"
| "declared_sizes lx Extra_large = [256]"
| "declared_sizes lx All = [16, 24, 32, 48, 256]"
| "declared_sizes lx a = []"

text \<open>
  The coordinate a hotspot option sets (\<open>None\<close> for every other argument), and the
  hotspot in effect after a sequence of arguments, in the words of the spec: each
  coordinate is the one most recently set by its option, or the initial one.
\<close>

definition hotspot_x_set :: "('k::linorder) library \<Rightarrow> cli_arg \<Rightarrow> rat option" where
  "hotspot_x_set lx a =
     (case a of
        Hotspot_x str \<Rightarrow>
          (case parse_F32 lx str 0 1 of
             Inl e \<Rightarrow> None
           | Inr v \<Rightarrow> Some v)
      | _ \<Rightarrow> None)"

definition hotspot_y_set :: "('k::linorder) library \<Rightarrow> cli_arg \<Rightarrow> rat option" where
  "hotspot_y_set lx a =
     (case a of
        Hotspot_y str \<Rightarrow>
          (case parse_F32 lx str 0 1 of
             Inl e \<Rightarrow> None
           | Inr v \<Rightarrow> Some v)
      | _ \<Rightarrow> None)"

definition current_hotspot :: "('k::linorder) library \<Rightarrow> vec2 \<Rightarrow> cli_arg list \<Rightarrow> vec2" where
  "current_hotspot lx h0 args =
     \<lparr>vx = last (vx h0 # List.map_filter (hotspot_x_set lx) args),
      vy = last (vy h0 # List.map_filter (hotspot_y_set lx) args)\<rparr>"

text \<open>
  The inputs a command line declares, in the order of the command line: the pair of path
  and hint of each \<^verbatim>\<open>-i\<close>, \<^verbatim>\<open>-p\<close> and \<^verbatim>\<open>-b\<close> option (the spec's \<open>ordered list of (path, hint)
  pairs\<close>).
\<close>

definition declared_input :: "cli_arg \<Rightarrow> (path \<times> input_type) option" where
  "declared_input a =
     (case a of
        Input str \<Rightarrow> Some (str, automatic)
      | Png str \<Rightarrow> Some (str, png)
      | Bmp str \<Rightarrow> Some (str, bitmap)
      | _ \<Rightarrow> None)"

definition declared_inputs :: "cli_arg list \<Rightarrow> (path \<times> input_type) list" where
  "declared_inputs args = List.map_filter declared_input args"

text \<open>The entries of a map keyed by paths, each under the key its path is compared by.\<close>

definition keyed :: "(path \<Rightarrow> 'k) \<Rightarrow> (path \<times> 'v) list \<Rightarrow> ('k \<times> 'v) list" where
  "keyed key m = map (\<lambda>e. (key (fst e), snd e)) m"

text \<open>
  The inputs the loop of lines 239-256 gets to: all of them up to and including the first
  one whose status query throws (all of them when none does).
\<close>

fun checked :: "filesystem \<Rightarrow> (path \<times> input_type) list \<Rightarrow> (path \<times> input_type) list" where
  "checked fs [] = []"
| "checked fs (e # es) =
     (case fs_status fs (fst e) of
        Inl x \<Rightarrow> [e]
      | Inr n \<Rightarrow> e # checked fs es)"

text \<open>The paths a run asks the filesystem about with \<^verbatim>\<open>fs::exists\<close>, in order.\<close>

definition examined :: "event list \<Rightarrow> path list" where
  "examined tr = List.map_filter (\<lambda>ev. case ev of Exists p \<Rightarrow> Some p | _ \<Rightarrow> None) tr"

text \<open>
  What can go wrong in a run, read off the filesystem: a status query on an input path
  throws; an input path is missing or names something that is not a regular file; a call
  of the output stage throws (\<^verbatim>\<open>fs::absolute\<close>, a status query on the output path or on
  its parent, or \<^verbatim>\<open>fs::create_directories\<close>); the output path names something that is
  not a regular file.
\<close>

definition inputs_raise :: "filesystem \<Rightarrow> ConcurApp \<Rightarrow> bool" where
  "inputs_raise fs a = list_ex (\<lambda>p. isl (fs_status fs p)) (map fst (inputs a))"

definition inputs_bad :: "filesystem \<Rightarrow> ConcurApp \<Rightarrow> bool" where
  "inputs_bad fs a =
     list_ex (\<lambda>p. fs_status fs p = Inr missing \<or> fs_status fs p = Inr other)
       (map fst (inputs a))"

definition output_raises :: "filesystem \<Rightarrow> path \<Rightarrow> bool" where
  "output_raises fs out =
     (case fs_absolute fs out of
        Inl e \<Rightarrow> True
      | Inr p \<Rightarrow>
          (case fs_status fs p of
             Inl e \<Rightarrow> True
           | Inr n \<Rightarrow>
               n = missing \<and>
               (case fs_status fs (fs_parent_path fs p) of
                  Inl e \<Rightarrow> True
                | Inr m \<Rightarrow>
                    m = missing \<and> fs_create_directories fs (fs_parent_path fs p) \<noteq> None)))"

definition output_not_a_file :: "filesystem \<Rightarrow> path \<Rightarrow> bool" where
  "output_not_a_file fs out =
     (case fs_absolute fs out of
        Inl e \<Rightarrow> False
      | Inr p \<Rightarrow> fs_status fs p = Inr other)"

text \<open>
  A library for the examples. Its lexers read the numbers the examples use, among them
  the ratios of the usage example of lines 157-161; its paths are compared as their strings
  are, which is the comparison of \<^verbatim>\<open>Path\<close> on the paths of the examples.
\<close>

definition example_lex_U16 :: "string \<Rightarrow> nat option" where
  "example_lex_U16 str =
     (if str = ''16'' then Some 16 else if str = ''128'' then Some 128
      else if str = ''0'' then Some 0 else if str = ''300'' then Some 300
      else None)"

definition example_lex_F32 :: "string \<Rightarrow> rat option" where
  "example_lex_F32 str =
     (if str = ''0'' then Some 0 else if str = ''1'' then Some 1
      else if str = ''2'' then Some 2
      else if str = ''2/16'' then Some (2 / 16)
      else if str = ''3/32'' then Some (3 / 32)
      else None)"

definition example_parsers :: "string library" where
  "example_parsers = bounded_parsers example_lex_U16 example_lex_F32 (\<lambda>p. p)"

text \<open>
  A second comparison of paths for the examples, element by element as the filesystem
  library compares: the key of a path is the list of its elements, a leading slash being
  the first, so that \<^verbatim>\<open>a//b\<close> and \<^verbatim>\<open>a/b\<close> are one key.
\<close>

fun elements :: "string \<Rightarrow> string \<Rightarrow> string list" where
  "elements acc [] = (if acc = [] then [] else [rev acc])"
| "elements acc (c # cs) =
     (if c = CHR ''/'' then (if acc = [] then elements [] cs else rev acc # elements [] cs)
      else elements (c # acc) cs)"

definition example_path_elements :: "path \<Rightarrow> string list" where
  "example_path_elements p = (if take 1 p = ''/'' then [''/''] else []) @ elements [] p"

text \<open>
  A filesystem for the examples: a regular file and a directory to read, a directory
  \<^verbatim>\<open>/out\<close> with one icon in it, a path whose status query fails, and a directory
  \<^verbatim>\<open>/ro\<close> under which nothing can be created. Paths are absolute already.
\<close>

definition example_fs :: filesystem where
  "example_fs =
     \<lparr>fs_status = (\<lambda>p. if p = ''/in/icon.png'' then Inr regular_file
                        else if p = ''/in'' then Inr other
                        else if p = ''/out'' then Inr other
                        else if p = ''/out/old.ico'' then Inr regular_file
                        else if p = ''/ro'' then Inr other
                        else if p = ''/in/locked.png'' then Inl filesystem_error
                        else Inr missing),
      fs_absolute = (\<lambda>p. Inr p),
      fs_parent_path = (\<lambda>p. rev (drop 1 (dropWhile (\<lambda>c. c \<noteq> CHR ''/'') (rev p)))),
      fs_create_directories = (\<lambda>p. if take 3 p = ''/ro'' then Some filesystem_error else None)\<rparr>"

text \<open>
  An argument that asks for help or for the version (\<^verbatim>\<open>-V\<close>, \<^verbatim>\<open>-?\<close>; the \<^verbatim>\<open>--help\<close> flag
  of lines 138-141 sets neither variable), and an argument that gives the output path.
\<close>

definition explicit_request :: "cli_arg \<Rightarrow> bool" where
  "explicit_request a = (case a of Version \<Rightarrow> True | Help v \<Rightarrow> True | _ \<Rightarrow> False)"

definition output_path_argument :: "cli_arg \<Rightarrow> bool" where
  "output_path_argument a = (case a of Nth0 str \<Rightarrow> True | _ \<Rightarrow> False)"

text \<open>A hotspot with both coordinates in \<open>[0, 1]\<close>, and a constructor state that holds no other.\<close>

definition normalized :: "vec2 \<Rightarrow> bool" where
  "normalized h \<longleftrightarrow> 0 \<le> vx h \<and> vx h \<le> 1 \<and> 0 \<le> vy h \<and> vy h \<le> 1"

definition hotspots_normalized :: "ctor_state \<Rightarrow> bool" where
  "hotspots_normalized s \<longleftrightarrow>
     normalized (hotspot s) \<and> (\<forall>e\<in>set (output_sizes (app s)). normalized (snd e))"

subsection \<open>The hotspot of a directory entry\<close>

text \<open>
  Modelled from the spec: the serializer is not among the sources (\<^verbatim>\<open>operator()\<close> stops
  at \<^verbatim>\<open>// TODO serialize output images\<close> and \<^verbatim>\<open>// TODO write ico/cur\<close>). The spec on a
  cursor's directory entry: \<open>the same 4 bytes instead encode the hotspot X and Y as 16-bit
  values scaled from normalized [0,1] to [0, edge_length-1] (round to nearest, clamp to
  [0, edge_length-1])\<close>. A tie rounds up, the second of the two rules the spec allows
  (\<open>(0.5, 0.5) at edge length 32 serializes to (16, 16)\<close>). The coordinate is a rational,
  as in \<open>vec2\<close>; the rounding of \<^verbatim>\<open>F32\<close> arithmetic is not modelled.
\<close>

definition hotspot_coord :: "nat \<Rightarrow> rat \<Rightarrow> int" where
  "hotspot_coord edge_length h =
     max 0 (min (int edge_length - 1) (round (h * (of_nat edge_length - 1))))"

definition serialize_hotspot :: "nat \<Rightarrow> vec2 \<Rightarrow> int \<times> int" where
  "serialize_hotspot edge_length h =
     (hotspot_coord edge_length (vx h), hotspot_coord edge_length (vy h))"

section \<open>Properties\<close>

subsection \<open>Ordered maps and the handlers\<close>

lemma map_of_map_assign: "map_of (map_assign k v m) = (map_of m)(k \<mapsto> v)"
  by (induction m) (auto simp: fun_upd_twist)

lemma keys_map_assign: "set (map fst (map_assign k v m)) = insert k (set (map fst m))"
  by (induction m) auto

lemma in_map_assign: "e \<in> set (map_assign k v m) \<Longrightarrow> e = (k, v) \<or> e \<in> set m"
  by (induction m) (auto split: if_splits)

lemma sorted_map_assign:
  "sorted_wrt (<) (map fst m) \<Longrightarrow> sorted_wrt (<) (map fst (map_assign k v m))"
  by (induction m) (auto dest: in_map_assign)

lemma filter_map_assign_same:
  "sorted_wrt (<) (map fst m) \<Longrightarrow> filter (\<lambda>e. fst e = k) (map_assign k v m) = [(k, v)]"
proof (induction m)
  case Nil
  then show ?case by simp
next
  case (Cons e m)
  have none: "filter (\<lambda>e'. fst e' = k) m = []" if "k \<le> fst e"
    using Cons.prems that by (auto simp: filter_empty_conv)
  show ?case
  proof (cases "k < fst e")
    case True
    then show ?thesis using none by auto
  next
    case False
    then show ?thesis using Cons none by auto
  qed
qed

lemma filter_map_assign_other:
  "j \<noteq> k \<Longrightarrow> filter (\<lambda>e. fst e = j) (map_assign k v m) = filter (\<lambda>e. fst e = j) m"
  by (induction m) auto

lemma proc_append:
  "proc lx (xs @ ys) s =
     (case proc lx xs s of (None, s') \<Rightarrow> proc lx ys s' | (Some e, s') \<Rightarrow> (Some e, s'))"
  by (induction xs arbitrary: s) (auto split: sum.splits)

lemma set_size_simps [simp]:
  "hotspot (set_size k s) = hotspot s"
  "output_sizes (app (set_size k s)) = map_assign k (hotspot s) (output_sizes (app s))"
  "inputs (app (set_size k s)) = inputs (app s)"
  "output_path (app (set_size k s)) = output_path (app s)"
  "status (app (set_size k s)) = status (app s)"
  "show_help (set_size k s) = show_help s"
  "show_version (set_size k s) = show_version s"
  "help_query (set_size k s) = help_query s"
  by (simp_all add: set_size_def)

lemma set_input_simps [simp]:
  "hotspot (set_input lx p t s) = hotspot s"
  "output_sizes (app (set_input lx p t s)) = output_sizes (app s)"
  "inputs (app (set_input lx p t s)) = path_assign (path_key lx) p t (inputs (app s))"
  "output_path (app (set_input lx p t s)) = output_path (app s)"
  "status (app (set_input lx p t s)) = status (app s)"
  "show_help (set_input lx p t s) = show_help s"
  "show_version (set_input lx p t s) = show_version s"
  "help_query (set_input lx p t s) = help_query s"
  by (simp_all add: set_input_def)

lemma handler_sizes_sorted:
  "handler lx a s = Inr s' \<Longrightarrow> sorted_wrt (<) (map fst (output_sizes (app s))) \<Longrightarrow>
   sorted_wrt (<) (map fst (output_sizes (app s')))"
  by (cases a) (auto split: sum.splits intro!: sorted_map_assign)

lemma proc_sizes_sorted:
  "proc lx args s = (r, s') \<Longrightarrow> sorted_wrt (<) (map fst (output_sizes (app s))) \<Longrightarrow>
   sorted_wrt (<) (map fst (output_sizes (app s')))"
proof (induction args arbitrary: s)
  case Nil
  then show ?case by simp
next
  case (Cons a args)
  show ?case
  proof (cases "handler lx a s")
    case (Inl e)
    with Cons.prems show ?thesis by simp
  next
    case (Inr s1)
    with Cons.prems have "proc lx args s1 = (r, s')" by simp
    moreover have "sorted_wrt (<) (map fst (output_sizes (app s1)))"
      using handler_sizes_sorted [OF Inr] Cons.prems(2) .
    ultimately show ?thesis by (rule Cons.IH)
  qed
qed

lemma sorted_filter_le_1:
  fixes m :: "('k::linorder \<times> 'v) list"
  shows "sorted_wrt (<) (map fst m) \<Longrightarrow> length (filter (\<lambda>e. fst e = j) m) \<le> Suc 0"
proof (induction m)
  case Nil
  then show ?case by simp
next
  case (Cons e m)
  have "filter (\<lambda>e'. fst e' = j) m = []" if "j \<le> fst e"
    using Cons.prems that by (auto simp: filter_empty_conv)
  with Cons show ?case by auto
qed

lemma handler_declares:
  assumes "handler lx d s = Inr s'" and "k \<in> set (declared_sizes lx d)"
    and "sorted_wrt (<) (map fst (output_sizes (app s)))"
  shows "filter (\<lambda>e. fst e = k) (output_sizes (app s')) = [(k, hotspot s)]"
  using assms
  by (cases d)
     (auto split: sum.splits
           simp: filter_map_assign_same filter_map_assign_other sorted_map_assign)

lemma handler_keeps:
  assumes "handler lx d s = Inr s'" and "j \<notin> set (declared_sizes lx d)"
  shows "filter (\<lambda>e. fst e = j) (output_sizes (app s')) = filter (\<lambda>e. fst e = j) (output_sizes (app s))"
  using assms
  by (cases d) (auto split: sum.splits simp: filter_map_assign_other)

lemma ctor_start_sorted: "sorted_wrt (<) (map fst (output_sizes (app (ctor_start h0))))"
  by (simp add: ctor_start_def ConcurApp_init_def)


lemma proc_Cons_None:
  "proc lx (a # as) s = (None, s') \<Longrightarrow> \<exists>s1. handler lx a s = Inr s1 \<and> proc lx as s1 = (None, s')"
  by (cases "handler lx a s") auto

lemma map_filter_app:
  "List.map_filter f (xs @ ys) = List.map_filter f xs @ List.map_filter f ys"
  by (induction xs) (simp_all split: option.splits)

lemma proc_split:
  "proc lx (pre @ d # post) s = (None, s') \<Longrightarrow>
   \<exists>s1 s2. proc lx pre s = (None, s1) \<and> handler lx d s1 = Inr s2 \<and> proc lx post s2 = (None, s')"
  by (auto simp: proc_append split: prod.splits option.splits sum.splits)

lemma proc_stops:
  assumes "proc lx pre s0 = (None, s)" and "handler lx a s = Inl e"
  shows "proc lx (pre @ a # post) s0 = (Some e, s)"
  using assms by (simp add: proc_append)

lemma map_assign_values:
  "\<forall>e\<in>set m. P (snd e) \<Longrightarrow> P v \<Longrightarrow> \<forall>e\<in>set (map_assign k v m). P (snd e)"
  by (induction m) auto

lemma bounded_parsers_simps [simp]:
  "parse_U16 (bounded_parsers lu lf pk) = parse_bounded_numeric_string lu"
  "parse_F32 (bounded_parsers lu lf pk) = parse_bounded_numeric_string lf"
  "path_key (bounded_parsers lu lf pk) = pk"
  by (simp_all add: bounded_parsers_def)

subsection \<open>Size requests\<close>

text \<open>
  Claim C1. Output size requests are stored keyed by edge length, and the last write
  wins. After every sequence of arguments (whether the processor finished it or stopped
  at an exception) \<^verbatim>\<open>output_sizes_\<close> holds at most one request per edge length; and a
  size declaration handled next leaves exactly one request for each edge length it
  declares, carrying the hotspot in effect at that declaration, whatever was requested
  for that edge length before, and leaves the requests of all other edge lengths as
  they were. The witness is scenario D: size 16 requested twice, with the hotspots
  (0, 0) and then (1, 0).
\<close>

theorem size_requests_last_write_wins:
  assumes "proc lx args (ctor_start h0) = (r, s)"
  shows "(\<forall>j. length (filter (\<lambda>e. fst e = j) (output_sizes (app s))) \<le> 1) \<and>
         (\<forall>d s' k. handler lx d s = Inr s' \<and> k \<in> set (declared_sizes lx d) \<longrightarrow>
            filter (\<lambda>e. fst e = k) (output_sizes (app s')) = [(k, hotspot s)] \<and>
            (\<forall>j. j \<notin> set (declared_sizes lx d) \<longrightarrow>
               filter (\<lambda>e. fst e = j) (output_sizes (app s')) =
               filter (\<lambda>e. fst e = j) (output_sizes (app s))))"
proof -
  have sorted: "sorted_wrt (<) (map fst (output_sizes (app s)))"
    using proc_sizes_sorted [OF assms ctor_start_sorted] .
  show ?thesis
    using sorted_filter_le_1 [OF sorted] handler_declares [OF _ _ sorted] handler_keeps
    by auto
qed

theorem size_requests_last_write_wins_witness:
  "proc example_parsers [Hotspot_x ''0'', Size ''16'', Hotspot_x ''1'']
     (ctor_start \<lparr>vx = 0, vy = 0\<rparr>) =
   (None, \<lparr>app = \<lparr>status = 0, inputs = [], output_sizes = [(16, \<lparr>vx = 0, vy = 0\<rparr>)],
                  output_path = []\<rparr>,
           hotspot = \<lparr>vx = 1, vy = 0\<rparr>, show_version = False, show_help = False,
           help_query = [], proc_verbose = False\<rparr>) \<and>
   output_sizes (fst (ConcurApp_ctor example_parsers \<lparr>vx = 0, vy = 0\<rparr>
      [Hotspot_x ''0'', Size ''16'', Hotspot_x ''1'', Size ''16'', Nth0 ''c.cur''])) =
     [(16, \<lparr>vx = 1, vy = 0\<rparr>)] \<and>
   filter (\<lambda>e. fst e = 16)
     (output_sizes (app (set_size 16
        \<lparr>app = \<lparr>status = 0, inputs = [], output_sizes = [(16, \<lparr>vx = 0, vy = 0\<rparr>)],
                 output_path = []\<rparr>,
         hotspot = \<lparr>vx = 1, vy = 0\<rparr>, show_version = False, show_help = False,
         help_query = [], proc_verbose = False\<rparr>))) = [(16, \<lparr>vx = 1, vy = 0\<rparr>)]"
proof -
  let ?args = "[Hotspot_x ''0'', Size ''16'', Hotspot_x ''1'']"
  let ?s = "\<lparr>app = \<lparr>status = 0, inputs = [], output_sizes = [(16, \<lparr>vx = 0, vy = 0\<rparr>)],
                  output_path = []\<rparr>,
           hotspot = \<lparr>vx = 1, vy = 0\<rparr>, show_version = False, show_help = False,
           help_query = [], proc_verbose = False\<rparr>"
  have run: "proc example_parsers ?args (ctor_start \<lparr>vx = 0, vy = 0\<rparr>) = (None, ?s)"
    by (simp add: example_parsers_def bounded_parsers_def example_lex_U16_def
        example_lex_F32_def parse_bounded_numeric_string_def ctor_start_def
        ConcurApp_init_def set_size_def)
  have step: "handler example_parsers (Size ''16'') ?s = Inr (set_size 16 ?s)"
    by (simp add: example_parsers_def bounded_parsers_def example_lex_U16_def
        example_lex_F32_def parse_bounded_numeric_string_def)
  have decl: "16 \<in> set (declared_sizes example_parsers (Size ''16''))"
    by (simp add: example_parsers_def bounded_parsers_def example_lex_U16_def
        example_lex_F32_def parse_bounded_numeric_string_def)
  have whole: "output_sizes (fst (ConcurApp_ctor example_parsers \<lparr>vx = 0, vy = 0\<rparr>
      [Hotspot_x ''0'', Size ''16'', Hotspot_x ''1'', Size ''16'', Nth0 ''c.cur''])) =
     [(16, \<lparr>vx = 1, vy = 0\<rparr>)]"
    by (simp add: ConcurApp_ctor_def example_parsers_def bounded_parsers_def example_lex_U16_def
        example_lex_F32_def parse_bounded_numeric_string_def
        ctor_start_def ConcurApp_init_def set_size_def no_output_path_def)
  from size_requests_last_write_wins [OF run] step decl
  have "filter (\<lambda>e. fst e = 16) (output_sizes (app (set_size 16 ?s))) = [(16, hotspot ?s)]"
    by blast
  with run whole show ?thesis by simp
qed

subsection \<open>The serialized hotspot\<close>

lemma hotspot_coord_exact:
  assumes "1 \<le> n" and "0 \<le> h" and "h \<le> 1"
  shows "hotspot_coord n h = round (h * (of_nat n - 1))"
proof -
  have n1: "(0::rat) \<le> of_nat n - 1" using assms(1) by simp
  have lo: "0 \<le> h * (of_nat n - 1)" using assms(2) n1 by simp
  have "h * (of_nat n - 1) \<le> 1 * (of_nat n - 1)"
    using assms(3) n1 by (rule mult_right_mono)
  then have hi: "h * (of_nat n - 1) \<le> of_int (int n - 1)" using assms(1) by simp
  have "round (0::rat) \<le> round (h * (of_nat n - 1))" using lo by (rule round_mono)
  then have a: "0 \<le> round (h * (of_nat n - 1))" by simp
  have "round (h * (of_nat n - 1)) \<le> round (of_int (int n - 1) :: rat)"
    using hi by (rule round_mono)
  then have b: "round (h * (of_nat n - 1)) \<le> int n - 1"
    by (simp only: round_of_int)
  from a b show ?thesis
    unfolding hotspot_coord_def by linarith
qed

lemma hotspot_coord_range:
  assumes "1 \<le> n"
  shows "0 \<le> hotspot_coord n h" and "hotspot_coord n h \<le> int n - 1"
  using assms unfolding hotspot_coord_def by linarith+

lemma hotspot_coord_ends:
  assumes "1 \<le> n"
  shows "hotspot_coord n 0 = 0" and "hotspot_coord n 1 = int n - 1"
  using assms hotspot_coord_exact [of n 0] hotspot_coord_exact [of n 1]
    round_of_int [of "int n - 1", where 'a = rat]
  by simp_all

text \<open>
  Claim C2. The directory entry of a cursor frame encodes the hotspot as two 16-bit
  values: each normalized coordinate in \<open>[0, 1]\<close> is scaled to \<open>[0, edge_length - 1]\<close>,
  rounded to nearest and clamped. For an edge length from 1 to 256 and a normalized
  hotspot, each value is the rounded scaled coordinate (the clamp changes nothing), lies
  in \<open>[0, edge_length - 1]\<close>, fits 16 bits and is within one half of the scaled
  coordinate; hotspot (0, 0) gives (0, 0) and hotspot (1, 1) gives
  (\<open>edge_length - 1\<close>, \<open>edge_length - 1\<close>).
\<close>

theorem hotspot_serialized_scaled:
  assumes "1 \<le> n" and "n \<le> 256"
    and "0 \<le> vx h" and "vx h \<le> 1" and "0 \<le> vy h" and "vy h \<le> 1"
  shows "serialize_hotspot n h = (round (vx h * (of_nat n - 1)), round (vy h * (of_nat n - 1))) \<and>
         0 \<le> fst (serialize_hotspot n h) \<and> fst (serialize_hotspot n h) \<le> int n - 1 \<and>
         0 \<le> snd (serialize_hotspot n h) \<and> snd (serialize_hotspot n h) \<le> int n - 1 \<and>
         fst (serialize_hotspot n h) < 2 ^ 16 \<and> snd (serialize_hotspot n h) < 2 ^ 16 \<and>
         \<bar>of_int (fst (serialize_hotspot n h)) - vx h * (of_nat n - 1)\<bar> \<le> 1 / 2 \<and>
         \<bar>of_int (snd (serialize_hotspot n h)) - vy h * (of_nat n - 1)\<bar> \<le> 1 / 2 \<and>
         serialize_hotspot n \<lparr>vx = 0, vy = 0\<rparr> = (0, 0) \<and>
         serialize_hotspot n \<lparr>vx = 1, vy = 1\<rparr> = (int n - 1, int n - 1)"
proof -
  have f: "fst (serialize_hotspot n h) = hotspot_coord n (vx h)"
    and s: "snd (serialize_hotspot n h) = hotspot_coord n (vy h)"
    by (simp_all add: serialize_hotspot_def)
  have ex: "hotspot_coord n (vx h) = round (vx h * (of_nat n - 1))"
    and ey: "hotspot_coord n (vy h) = round (vy h * (of_nat n - 1))"
    using assms by (simp_all add: hotspot_coord_exact)
  have eq: "serialize_hotspot n h =
      (round (vx h * (of_nat n - 1)), round (vy h * (of_nat n - 1)))"
    using ex ey by (simp add: serialize_hotspot_def)
  have rx: "0 \<le> fst (serialize_hotspot n h)" "fst (serialize_hotspot n h) \<le> int n - 1"
    and ry: "0 \<le> snd (serialize_hotspot n h)" "snd (serialize_hotspot n h) \<le> int n - 1"
    unfolding f s using assms(1) by (rule hotspot_coord_range)+
  have small: "int n - 1 < 2 ^ 16" using assms(2) by simp
  have bx: "fst (serialize_hotspot n h) < 2 ^ 16" using rx(2) small by linarith
  have by16: "snd (serialize_hotspot n h) < 2 ^ 16" using ry(2) small by linarith
  have nx: "\<bar>of_int (fst (serialize_hotspot n h)) - vx h * (of_nat n - 1)\<bar> \<le> 1 / 2"
    unfolding f ex by (rule of_int_round_abs_le)
  have ny: "\<bar>of_int (snd (serialize_hotspot n h)) - vy h * (of_nat n - 1)\<bar> \<le> 1 / 2"
    unfolding s ey by (rule of_int_round_abs_le)
  have z: "serialize_hotspot n \<lparr>vx = 0, vy = 0\<rparr> = (0, 0)"
    and o: "serialize_hotspot n \<lparr>vx = 1, vy = 1\<rparr> = (int n - 1, int n - 1)"
    using hotspot_coord_ends [OF assms(1)] by (simp_all add: serialize_hotspot_def)
  from eq rx ry bx by16 nx ny z o show ?thesis by blast
qed

theorem hotspot_serialized_scaled_witness:
  "serialize_hotspot 32 \<lparr>vx = 1 / 2, vy = 1 / 2\<rparr> = (16, 16) \<and>
   serialize_hotspot 32 \<lparr>vx = 0, vy = 0\<rparr> = (0, 0) \<and>
   serialize_hotspot 32 \<lparr>vx = 1, vy = 1\<rparr> = (31, 31) \<and>
   serialize_hotspot 256 \<lparr>vx = 1, vy = 1 / 8\<rparr> = (255, 32)"
proof -
  have a: "serialize_hotspot 32 \<lparr>vx = 1 / 2, vy = 1 / 2\<rparr> =
      (round (1 / 2 * (of_nat 32 - 1) :: rat), round (1 / 2 * (of_nat 32 - 1) :: rat)) \<and>
    serialize_hotspot 32 \<lparr>vx = 0, vy = 0\<rparr> = (0, 0) \<and>
    serialize_hotspot 32 \<lparr>vx = 1, vy = 1\<rparr> = (int 32 - 1, int 32 - 1)"
    using hotspot_serialized_scaled [of 32 "\<lparr>vx = 1 / 2, vy = 1 / 2\<rparr>"] by simp
  have b: "serialize_hotspot 256 \<lparr>vx = 1, vy = 1 / 8\<rparr> =
      (round (1 * (of_nat 256 - 1) :: rat), round (1 / 8 * (of_nat 256 - 1) :: rat))"
    using hotspot_serialized_scaled [of 256 "\<lparr>vx = 1, vy = 1 / 8\<rparr>"] by simp
  have r1: "round (1 / 2 * (of_nat 32 - 1) :: rat) = 16"
    by (simp add: round_def floor_unique)
  have r2: "round (1 * (of_nat 256 - 1) :: rat) = 255" "round (1 / 8 * (of_nat 256 - 1) :: rat) = 32"
    by (simp_all add: round_def floor_unique)
  from a b r1 r2 show ?thesis by simp
qed

subsection \<open>The hotspot in effect\<close>

lemma handler_vx:
  "handler lx a s = Inr s' \<Longrightarrow>
   vx (hotspot s') = (case hotspot_x_set lx a of None \<Rightarrow> vx (hotspot s) | Some v \<Rightarrow> v)"
  by (cases a) (auto split: sum.splits simp: hotspot_x_set_def)

lemma handler_vy:
  "handler lx a s = Inr s' \<Longrightarrow>
   vy (hotspot s') = (case hotspot_y_set lx a of None \<Rightarrow> vy (hotspot s) | Some v \<Rightarrow> v)"
  by (cases a) (auto split: sum.splits simp: hotspot_y_set_def)

lemma proc_vx:
  "proc lx as s = (None, s') \<Longrightarrow>
   vx (hotspot s') = last (vx (hotspot s) # List.map_filter (hotspot_x_set lx) as)"
proof (induction as arbitrary: s)
  case Nil
  then show ?case by simp
next
  case (Cons a as)
  from proc_Cons_None [OF Cons.prems] obtain s1
    where h: "handler lx a s = Inr s1" and p: "proc lx as s1 = (None, s')" by blast
  show ?case
    using Cons.IH [OF p] handler_vx [OF h]
    by (simp split: option.splits)
qed

lemma proc_vy:
  "proc lx as s = (None, s') \<Longrightarrow>
   vy (hotspot s') = last (vy (hotspot s) # List.map_filter (hotspot_y_set lx) as)"
proof (induction as arbitrary: s)
  case Nil
  then show ?case by simp
next
  case (Cons a as)
  from proc_Cons_None [OF Cons.prems] obtain s1
    where h: "handler lx a s = Inr s1" and p: "proc lx as s1 = (None, s')" by blast
  show ?case
    using Cons.IH [OF p] handler_vy [OF h]
    by (simp split: option.splits)
qed

lemma proc_current_hotspot:
  "proc lx as (ctor_start h0) = (None, s) \<Longrightarrow> hotspot s = current_hotspot lx h0 as"
  using proc_vx [of lx as "ctor_start h0" s] proc_vy [of lx as "ctor_start h0" s]
  by (simp add: current_hotspot_def ctor_start_def)

lemma handler_declares_map_of:
  "handler lx d s = Inr s' \<Longrightarrow> k \<in> set (declared_sizes lx d) \<Longrightarrow>
   map_of (output_sizes (app s')) k = Some (hotspot s)"
  by (cases d) (auto split: sum.splits simp: map_of_map_assign)

lemma handler_keeps_map_of:
  "handler lx d s = Inr s' \<Longrightarrow> k \<notin> set (declared_sizes lx d) \<Longrightarrow>
   map_of (output_sizes (app s')) k = map_of (output_sizes (app s)) k"
  by (cases d) (auto split: sum.splits simp: map_of_map_assign)

lemma proc_keeps_map_of:
  "proc lx as s = (None, s') \<Longrightarrow> \<forall>a\<in>set as. k \<notin> set (declared_sizes lx a) \<Longrightarrow>
   map_of (output_sizes (app s')) k = map_of (output_sizes (app s)) k"
proof (induction as arbitrary: s)
  case Nil
  then show ?case by simp
next
  case (Cons a as)
  from proc_Cons_None [OF Cons.prems(1)] obtain s1
    where h: "handler lx a s = Inr s1" and p: "proc lx as s1 = (None, s')" by blast
  have "map_of (output_sizes (app s')) k = map_of (output_sizes (app s1)) k"
    using Cons.IH [OF p] Cons.prems(2) by simp
  also have "\<dots> = map_of (output_sizes (app s)) k"
    using handler_keeps_map_of [OF h] Cons.prems(2) by simp
  finally show ?case .
qed

text \<open>
  Claim C3. The hotspot a size declaration records is the hotspot in effect at that
  point of the command line: each coordinate is the one most recently set by its
  hotspot option earlier in the argument sequence, or the initial one when no such
  option came before. For every argument sequence the processor finishes, the request
  of an edge length that \<open>d\<close> declares and no later argument declares again carries
  that hotspot; and the hotspot in effect stays the same across any arguments that set
  no hotspot coordinate, so it applies to all size declarations among them. The witness
  is the usage example of lines 157-161.
\<close>

theorem size_declaration_records_current_hotspot:
  assumes "proc lx (pre @ d # post) (ctor_start h0) = (None, s)"
    and "k \<in> set (declared_sizes lx d)"
    and "\<forall>a\<in>set post. k \<notin> set (declared_sizes lx a)"
  shows "map_of (output_sizes (app s)) k = Some (current_hotspot lx h0 pre) \<and>
         (\<forall>mid. (\<forall>a\<in>set mid. hotspot_x_set lx a = None \<and> hotspot_y_set lx a = None) \<longrightarrow>
            current_hotspot lx h0 (pre @ mid) = current_hotspot lx h0 pre)"
proof -
  from proc_split [OF assms(1)] obtain s1 s2
    where pre: "proc lx pre (ctor_start h0) = (None, s1)"
      and d: "handler lx d s1 = Inr s2"
      and post: "proc lx post s2 = (None, s)" by blast
  have "map_of (output_sizes (app s)) k = map_of (output_sizes (app s2)) k"
    using proc_keeps_map_of [OF post assms(3)] .
  also have "\<dots> = Some (hotspot s1)"
    using handler_declares_map_of [OF d assms(2)] .
  also have "hotspot s1 = current_hotspot lx h0 pre"
    using proc_current_hotspot [OF pre] .
  finally have first: "map_of (output_sizes (app s)) k = Some (current_hotspot lx h0 pre)" .
  have none: "List.map_filter f mid = []" if "\<forall>a\<in>set mid. f a = None" for f :: "cli_arg \<Rightarrow> rat option" and mid
    using that by (induction mid) simp_all
  have "current_hotspot lx h0 (pre @ mid) = current_hotspot lx h0 pre"
    if "\<forall>a\<in>set mid. hotspot_x_set lx a = None \<and> hotspot_y_set lx a = None" for mid
    using that none [of mid "hotspot_x_set lx"] none [of mid "hotspot_y_set lx"]
    by (simp add: current_hotspot_def map_filter_app)
  with first show ?thesis by blast
qed

theorem size_declaration_records_current_hotspot_witness:
  "fst (proc example_parsers
     ([Input ''icon_image.tga'', Hotspot_x ''2/16'', Hotspot_y ''2/16'', Small] @
      Medium # [Hotspot_x ''3/32'', Normal, Nth0 ''cursor.cur''])
     (ctor_start \<lparr>vx = 0, vy = 0\<rparr>)) = None \<and>
   map_of (output_sizes (app (snd (proc example_parsers
     ([Input ''icon_image.tga'', Hotspot_x ''2/16'', Hotspot_y ''2/16'', Small] @
      Medium # [Hotspot_x ''3/32'', Normal, Nth0 ''cursor.cur''])
     (ctor_start \<lparr>vx = 0, vy = 0\<rparr>))))) 24 = Some \<lparr>vx = 1 / 8, vy = 1 / 8\<rparr> \<and>
   output_sizes (fst (ConcurApp_ctor example_parsers \<lparr>vx = 0, vy = 0\<rparr>
     [Input ''icon_image.tga'', Hotspot_x ''2/16'', Hotspot_y ''2/16'', Small, Medium,
      Hotspot_x ''3/32'', Normal, Nth0 ''cursor.cur''])) =
     [(16, \<lparr>vx = 1 / 8, vy = 1 / 8\<rparr>), (24, \<lparr>vx = 1 / 8, vy = 1 / 8\<rparr>),
      (32, \<lparr>vx = 3 / 32, vy = 1 / 8\<rparr>)]"
proof -
  let ?pre = "[Input ''icon_image.tga'', Hotspot_x ''2/16'', Hotspot_y ''2/16'', Small]"
  let ?post = "[Hotspot_x ''3/32'', Normal, Nth0 ''cursor.cur'']"
  let ?h0 = "\<lparr>vx = 0, vy = 0\<rparr>"
  let ?run = "proc example_parsers (?pre @ Medium # ?post) (ctor_start ?h0)"
  have ok: "fst ?run = None"
    by (simp add: example_parsers_def bounded_parsers_def example_lex_U16_def
        example_lex_F32_def parse_bounded_numeric_string_def)
  then have run: "?run = (None, snd ?run)"
    by (metis prod.collapse)
  have decl: "24 \<in> set (declared_sizes example_parsers Medium)"
    by simp
  have later: "\<forall>a\<in>set ?post. 24 \<notin> set (declared_sizes example_parsers a)"
    by simp
  have cur: "current_hotspot example_parsers ?h0 ?pre = \<lparr>vx = 1 / 8, vy = 1 / 8\<rparr>"
    by (simp add: current_hotspot_def hotspot_x_set_def hotspot_y_set_def example_parsers_def bounded_parsers_def example_lex_U16_def
        example_lex_F32_def
        parse_bounded_numeric_string_def)
  have whole: "output_sizes (fst (ConcurApp_ctor example_parsers ?h0
     [Input ''icon_image.tga'', Hotspot_x ''2/16'', Hotspot_y ''2/16'', Small, Medium,
      Hotspot_x ''3/32'', Normal, Nth0 ''cursor.cur''])) =
     [(16, \<lparr>vx = 1 / 8, vy = 1 / 8\<rparr>), (24, \<lparr>vx = 1 / 8, vy = 1 / 8\<rparr>),
      (32, \<lparr>vx = 3 / 32, vy = 1 / 8\<rparr>)]"
    by (simp add: ConcurApp_ctor_def example_parsers_def bounded_parsers_def example_lex_U16_def
        example_lex_F32_def parse_bounded_numeric_string_def
        ctor_start_def ConcurApp_init_def set_size_def set_input_def no_output_path_def)
  from size_declaration_records_current_hotspot [OF run decl later] cur
  have "map_of (output_sizes (app (snd ?run))) 24 = Some \<lparr>vx = 1 / 8, vy = 1 / 8\<rparr>"
    by simp
  with ok whole show ?thesis by simp
qed

subsection \<open>The inputs\<close>

lemma keyed_simps [simp]:
  "keyed key [] = []"
  "keyed key (e # m) = (key (fst e), snd e) # keyed key m"
  "keyed key (m @ m') = keyed key m @ keyed key m'"
  by (simp_all add: keyed_def)

lemma in_path_assign:
  "e \<in> set (path_assign key p v m) \<Longrightarrow> key (fst e) = key p \<or> e \<in> set m"
  by (induction m) (auto split: if_splits)

lemma path_assign_sorted:
  "sorted_wrt (<) (map fst (keyed key m)) \<Longrightarrow>
   sorted_wrt (<) (map fst (keyed key (path_assign key p v m)))"
proof (induction m)
  case Nil
  then show ?case by simp
next
  case (Cons e m)
  then show ?case
    by (auto simp: keyed_def dest!: in_path_assign)
qed

lemma path_assign_keyed:
  "map_of (keyed key (path_assign key p v m)) = (map_of (keyed key m))(key p \<mapsto> v)"
  by (induction m) (auto simp: fun_upd_twist)

lemma path_assign_paths:
  "set (map fst (path_assign key p v m)) \<subseteq> insert p (set (map fst m))"
  by (induction m) auto

lemma handler_inputs:
  "handler lx a s = Inr s' \<Longrightarrow>
   inputs (app s') =
     (case declared_input a of
        None \<Rightarrow> inputs (app s)
      | Some d \<Rightarrow> path_assign (path_key lx) (fst d) (snd d) (inputs (app s)))"
  by (cases a) (auto split: sum.splits simp: declared_input_def)

lemma proc_inputs_sorted:
  "proc lx as s = (r, s') \<Longrightarrow>
   sorted_wrt (<) (map fst (keyed (path_key lx) (inputs (app s)))) \<Longrightarrow>
   sorted_wrt (<) (map fst (keyed (path_key lx) (inputs (app s'))))"
proof (induction as arbitrary: s)
  case Nil
  then show ?case by simp
next
  case (Cons a as)
  show ?case
  proof (cases "handler lx a s")
    case (Inl e)
    with Cons.prems show ?thesis by simp
  next
    case (Inr s1)
    with Cons.prems have "proc lx as s1 = (r, s')" by simp
    moreover have "sorted_wrt (<) (map fst (keyed (path_key lx) (inputs (app s1))))"
      using handler_inputs [OF Inr] Cons.prems(2)
      by (auto split: option.splits intro: path_assign_sorted)
    ultimately show ?thesis by (rule Cons.IH)
  qed
qed

lemma proc_inputs_map_of:
  "proc lx as s = (None, s') \<Longrightarrow>
   map_of (keyed (path_key lx) (inputs (app s'))) =
     map_of (keyed (path_key lx) (inputs (app s))) ++
     map_of (rev (keyed (path_key lx) (declared_inputs as)))"
proof (induction as arbitrary: s)
  case Nil
  then show ?case by (simp add: declared_inputs_def)
next
  case (Cons a as)
  from proc_Cons_None [OF Cons.prems] obtain s1
    where h: "handler lx a s = Inr s1" and p: "proc lx as s1 = (None, s')" by blast
  have step: "map_of (keyed (path_key lx) (inputs (app s1))) =
      map_of (keyed (path_key lx) (inputs (app s))) ++
      map_of (rev (keyed (path_key lx) (declared_inputs [a])))"
    using handler_inputs [OF h]
    by (auto simp: declared_inputs_def path_assign_keyed split: option.splits)
  have "declared_inputs (a # as) = declared_inputs [a] @ declared_inputs as"
    by (simp add: declared_inputs_def split: option.splits)
  then have "keyed (path_key lx) (declared_inputs (a # as)) =
      keyed (path_key lx) (declared_inputs [a]) @ keyed (path_key lx) (declared_inputs as)"
    by simp
  then show ?case
    using Cons.IH [OF p] step by simp
qed

lemma proc_inputs_paths:
  "proc lx as s = (r, s') \<Longrightarrow>
   set (map fst (inputs (app s'))) \<subseteq>
     set (map fst (inputs (app s))) \<union> set (map fst (declared_inputs as))"
proof (induction as arbitrary: s)
  case Nil
  then show ?case by simp
next
  case (Cons a as)
  show ?case
  proof (cases "handler lx a s")
    case (Inl e)
    with Cons.prems show ?thesis by auto
  next
    case (Inr s1)
    with Cons.prems have p: "proc lx as s1 = (r, s')" by simp
    have one: "set (map fst (inputs (app s1))) \<subseteq>
        set (map fst (inputs (app s))) \<union> set (map fst (declared_inputs [a]))"
      using handler_inputs [OF Inr]
        path_assign_paths [of "path_key lx" _ _ "inputs (app s)"]
      by (auto simp: declared_inputs_def split: option.splits)
    have "declared_inputs (a # as) = declared_inputs [a] @ declared_inputs as"
      by (simp add: declared_inputs_def split: option.splits)
    then show ?thesis
      using Cons.IH [OF p] one by auto
  qed
qed

text \<open>
  Claim C4 says that the inputs handed on are the declarations in command-line order, one
  entry per declaration. The handlers assign \<^verbatim>\<open>inputs_[str]\<close>, so that fails: three
  declarations naming two paths leave two entries.
\<close>

theorem inputs_keyed_by_path_counterexample:
  "inputs (fst (ConcurApp_ctor example_parsers \<lparr>vx = 0, vy = 0\<rparr>
      [Input ''b.png'', Png ''a.png'', Bmp ''b.png'', Nth0 ''icon.ico''])) =
     [(''a.png'', png), (''b.png'', bitmap)] \<and>
   declared_inputs [Input ''b.png'', Png ''a.png'', Bmp ''b.png'', Nth0 ''icon.ico''] =
     [(''b.png'', automatic), (''a.png'', png), (''b.png'', bitmap)] \<and>
   inputs (fst (ConcurApp_ctor example_parsers \<lparr>vx = 0, vy = 0\<rparr>
      [Input ''b.png'', Png ''a.png'', Bmp ''b.png'', Nth0 ''icon.ico''])) \<noteq>
   declared_inputs [Input ''b.png'', Png ''a.png'', Bmp ''b.png'', Nth0 ''icon.ico'']"
  by (simp add: ConcurApp_ctor_def ctor_start_def ConcurApp_init_def set_input_def
      example_parsers_def bounded_parsers_def
      no_output_path_def declared_inputs_def declared_input_def)

text \<open>
  Claim C4, amended. For every argument sequence the processor finishes, \<^verbatim>\<open>inputs_\<close> is
  a map keyed by path, with keys compared as \<^verbatim>\<open>Path\<close> compares them: no two entries have
  the same key; the entries under their keys are exactly the declarations under theirs,
  each key with the hint of the last declaration that names it; and every stored path is
  the path of some declaration. Nothing is said about the order of the entries.
\<close>

theorem inputs_keyed_by_path:
  assumes "proc lx args (ctor_start h0) = (None, s)"
  shows "inputs (fst (ConcurApp_ctor lx h0 args)) = inputs (app s) \<and>
         distinct (map fst (keyed (path_key lx) (inputs (app s)))) \<and>
         map_of (keyed (path_key lx) (inputs (app s))) =
           map_of (rev (keyed (path_key lx) (declared_inputs args))) \<and>
         set (map fst (inputs (app s))) \<subseteq> set (map fst (declared_inputs args))"
proof -
  have "sorted_wrt (<) (map fst (keyed (path_key lx) (inputs (app s))))"
    using proc_inputs_sorted [OF assms]
    by (simp add: ctor_start_def ConcurApp_init_def)
  then have dist: "distinct (map fst (keyed (path_key lx) (inputs (app s))))"
    by (simp add: strict_sorted_iff)
  have m: "map_of (keyed (path_key lx) (inputs (app s))) =
      map_of (rev (keyed (path_key lx) (declared_inputs args)))"
    using proc_inputs_map_of [OF assms]
    by (simp add: ctor_start_def ConcurApp_init_def)
  have paths: "set (map fst (inputs (app s))) \<subseteq> set (map fst (declared_inputs args))"
    using proc_inputs_paths [OF assms] by (simp add: ctor_start_def ConcurApp_init_def)
  have same: "inputs (fst (ConcurApp_ctor lx h0 args)) = inputs (app s)"
    using assms by (simp add: ConcurApp_ctor_def no_output_path_def)
  from same dist m paths show ?thesis by blast
qed

theorem inputs_keyed_by_path_witness:
  "fst (proc example_parsers [Input ''b.png'', Png ''a.png'', Bmp ''b.png'', Nth0 ''icon.ico'']
     (ctor_start \<lparr>vx = 0, vy = 0\<rparr>)) = None \<and>
   map_of (keyed (path_key example_parsers) (inputs (app (snd (proc example_parsers
     [Input ''b.png'', Png ''a.png'', Bmp ''b.png'', Nth0 ''icon.ico'']
     (ctor_start \<lparr>vx = 0, vy = 0\<rparr>)))))) ''b.png'' = Some bitmap \<and>
   map_of (keyed (path_key example_parsers) (inputs (app (snd (proc example_parsers
     [Input ''b.png'', Png ''a.png'', Bmp ''b.png'', Nth0 ''icon.ico'']
     (ctor_start \<lparr>vx = 0, vy = 0\<rparr>)))))) ''a.png'' = Some png \<and>
   map_of (keyed (path_key example_parsers) (inputs (app (snd (proc example_parsers
     [Input ''b.png'', Png ''a.png'', Bmp ''b.png'', Nth0 ''icon.ico'']
     (ctor_start \<lparr>vx = 0, vy = 0\<rparr>)))))) ''c.png'' = None \<and>
   proc (bounded_parsers example_lex_U16 example_lex_F32 example_path_elements)
     [Input ''a//b'', Png ''a/b''] (ctor_start \<lparr>vx = 0, vy = 0\<rparr>) =
     (None, \<lparr>app = \<lparr>status = 0, inputs = [(''a//b'', png)], output_sizes = [],
                   output_path = []\<rparr>,
            hotspot = \<lparr>vx = 0, vy = 0\<rparr>, show_version = False, show_help = False,
            help_query = [], proc_verbose = False\<rparr>) \<and>
   map_of (keyed example_path_elements [(''a//b'', png)]) [''a'', ''b''] = Some png"
proof -
  let ?args = "[Input ''b.png'', Png ''a.png'', Bmp ''b.png'', Nth0 ''icon.ico'']"
  let ?run = "proc example_parsers ?args (ctor_start \<lparr>vx = 0, vy = 0\<rparr>)"
  have ok: "fst ?run = None"
    by simp
  then have run: "?run = (None, snd ?run)"
    by (metis prod.collapse)
  have d: "keyed (path_key example_parsers) (declared_inputs ?args) =
      [(''b.png'', automatic), (''a.png'', png), (''b.png'', bitmap)]"
    by (simp add: declared_inputs_def declared_input_def example_parsers_def
        bounded_parsers_def)
  from inputs_keyed_by_path [OF run]
  have "map_of (keyed (path_key example_parsers) (inputs (app (snd ?run)))) =
      map_of (rev (keyed (path_key example_parsers) (declared_inputs ?args)))"
    by blast
  then have first: "map_of (keyed (path_key example_parsers) (inputs (app (snd ?run)))) ''b.png'' =
        Some bitmap"
    and "map_of (keyed (path_key example_parsers) (inputs (app (snd ?run)))) ''a.png'' = Some png"
    and "map_of (keyed (path_key example_parsers) (inputs (app (snd ?run)))) ''c.png'' = None"
    unfolding d by simp_all
  moreover
  let ?lx = "bounded_parsers example_lex_U16 example_lex_F32 example_path_elements"
  let ?s = "\<lparr>app = \<lparr>status = 0, inputs = [(''a//b'', png)], output_sizes = [],
                   output_path = []\<rparr>,
            hotspot = \<lparr>vx = 0, vy = 0\<rparr>, show_version = False, show_help = False,
            help_query = [], proc_verbose = False\<rparr>"
  have merged: "proc ?lx [Input ''a//b'', Png ''a/b''] (ctor_start \<lparr>vx = 0, vy = 0\<rparr>) =
      (None, ?s)"
    by (simp add: ctor_start_def ConcurApp_init_def set_input_def example_path_elements_def)
  have k: "keyed example_path_elements (declared_inputs [Input ''a//b'', Png ''a/b'']) =
      [([''a'', ''b''], automatic), ([''a'', ''b''], png)]"
    by (simp add: declared_inputs_def declared_input_def example_path_elements_def)
  from inputs_keyed_by_path [OF merged]
  have "map_of (keyed (path_key ?lx) (inputs (app ?s))) =
      map_of (rev (keyed (path_key ?lx) (declared_inputs [Input ''a//b'', Png ''a/b''])))"
    by blast
  then have "map_of (keyed example_path_elements [(''a//b'', png)]) [''a'', ''b''] = Some png"
    using k by simp
  ultimately show ?thesis
    using ok merged by simp
qed

subsection \<open>The run: input loop and output stage\<close>

lemma emit_simps [simp]:
  "fst (emit evs r) = fst r"
  "fst (snd (emit evs r)) = fst (snd r)"
  "snd (snd (emit evs r)) = evs @ snd (snd r)"
  by (simp_all add: emit_def split: prod.splits)

lemma check_inputs_Cons:
  assumes "fs_status fs (fst pair) = Inr n"
  shows "fst (check_inputs fs (pair # rest) st) =
           fst (check_inputs fs rest (if n = regular_file then st else 3))"
    and "fst (snd (check_inputs fs (pair # rest) st)) =
           fst (snd (check_inputs fs rest (if n = regular_file then st else 3)))"
    and "snd (snd (check_inputs fs (pair # rest) st)) =
           Exists (fst pair) #
           (if n = missing then [Log_error ''Input path does not exist!'' (fst pair)]
            else if n = other
              then [Is_regular_file (fst pair), Log_error ''Input path is not a file!'' (fst pair)]
            else [Is_regular_file (fst pair)]) @
           snd (snd (check_inputs fs rest (if n = regular_file then st else 3)))"
  using assms by (cases n; simp)+

lemma check_inputs_raises:
  "fst (check_inputs fs ins st) \<noteq> None \<longleftrightarrow> list_ex (\<lambda>p. isl (fs_status fs p)) (map fst ins)"
proof (induction ins arbitrary: st)
  case Nil
  then show ?case by simp
next
  case (Cons pair ins)
  show ?case
  proof (cases "fs_status fs (fst pair)")
    case (Inl e)
    then show ?thesis by simp
  next
    case (Inr n)
    show ?thesis
      using Cons [of "if n = regular_file then st else 3"] Inr
      unfolding check_inputs_Cons(1) [OF Inr] by simp
  qed
qed

lemma check_inputs_from_3:
  "fst (check_inputs fs ins 3) = None \<Longrightarrow> fst (snd (check_inputs fs ins 3)) = 3"
proof (induction ins)
  case Nil
  then show ?case by simp
next
  case (Cons pair ins)
  then obtain n where n: "fs_status fs (fst pair) = Inr n"
    by (cases "fs_status fs (fst pair)") auto
  show ?case
    using Cons unfolding check_inputs_Cons [OF n] by simp
qed

lemma check_inputs_status:
  "fst (check_inputs fs ins st) = None \<Longrightarrow>
   fst (snd (check_inputs fs ins st)) =
     (if list_ex (\<lambda>p. fs_status fs p = Inr missing \<or> fs_status fs p = Inr other) (map fst ins)
      then 3 else st)"
proof (induction ins arbitrary: st)
  case Nil
  then show ?case by simp
next
  case (Cons pair ins)
  then obtain n where n: "fs_status fs (fst pair) = Inr n"
    by (cases "fs_status fs (fst pair)") auto
  show ?case
  proof (cases "n = regular_file")
    case True
    then show ?thesis
      using Cons.IH [of st] Cons.prems n unfolding check_inputs_Cons [OF n] by simp
  next
    case False
    then have bad: "fs_status fs (fst pair) = Inr missing \<or> fs_status fs (fst pair) = Inr other"
      using n by (cases n) simp_all
    have "fst (check_inputs fs ins 3) = None"
      using Cons.prems False unfolding check_inputs_Cons [OF n] by simp
    then have "fst (snd (check_inputs fs ins 3)) = 3"
      by (rule check_inputs_from_3)
    then show ?thesis
      using bad False unfolding check_inputs_Cons [OF n] by auto
  qed
qed

lemma read_inputs_status:
  "fst (read_inputs fs a) =
     (if inputs_raise fs a then 4 else if inputs_bad fs a then 3 else status a)"
proof -
  obtain e st tr where c: "check_inputs fs (inputs a) (status a) = (e, st, tr)"
    by (cases "check_inputs fs (inputs a) (status a)") auto
  show ?thesis
  proof (cases e)
    case None
    then have "\<not> inputs_raise fs a"
      using check_inputs_raises [of fs "inputs a" "status a"] c by (simp add: inputs_raise_def)
    then show ?thesis
      using None c check_inputs_status [of fs "inputs a" "status a"]
      by (simp add: read_inputs_def inputs_bad_def)
  next
    case (Some x)
    then have "inputs_raise fs a"
      using check_inputs_raises [of fs "inputs a" "status a"] c by (simp add: inputs_raise_def)
    then show ?thesis
      using Some c by (simp add: read_inputs_def)
  qed
qed

lemma configure_output_cases:
  "configure_output fs out st =
     (case fs_absolute fs out of
        Inl e \<Rightarrow> (Some e, (out, st), [Absolute out])
      | Inr p \<Rightarrow>
          (case fs_status fs p of
             Inl e \<Rightarrow> (Some e, (p, st), [Absolute out, Exists p])
           | Inr missing \<Rightarrow>
               (case fs_status fs (fs_parent_path fs p) of
                  Inl e \<Rightarrow> (Some e, (p, st), [Absolute out, Exists p, Exists (fs_parent_path fs p)])
                | Inr missing \<Rightarrow>
                    (case fs_create_directories fs (fs_parent_path fs p) of
                       Some e \<Rightarrow>
                         (Some e, (p, st),
                          [Absolute out, Exists p, Exists (fs_parent_path fs p),
                           Create_directories (fs_parent_path fs p)])
                     | None \<Rightarrow>
                         (None, (p, st),
                          [Absolute out, Exists p, Exists (fs_parent_path fs p),
                           Create_directories (fs_parent_path fs p), Log_output_path p]))
                | Inr m \<Rightarrow>
                    (None, (p, st),
                     [Absolute out, Exists p, Exists (fs_parent_path fs p), Log_output_path p]))
           | Inr regular_file \<Rightarrow>
               (None, (p, st), [Absolute out, Exists p, Is_regular_file p, Log_output_path p])
           | Inr other \<Rightarrow>
               (None, (p, 5),
                [Absolute out, Exists p, Is_regular_file p,
                 Log_error ''Output path already exists and is not a file!'' p,
                 Log_output_path p])))"
  by (simp add: configure_output_def emit_def split: sum.split node.split option.split)

lemma write_output_status:
  "snd (fst (write_output fs out st)) =
     (if output_raises fs out then 1 else if output_not_a_file fs out then 5 else st)"
  by (simp add: write_output_def configure_output_cases output_raises_def output_not_a_file_def
      split: sum.split node.split option.split)

lemma write_output_starts:
  "\<exists>tr. snd (write_output fs out st) = Absolute out # tr"
  by (simp add: write_output_def configure_output_cases
      split: sum.split node.split option.split)

lemma call_status:
  assumes "status a = 0" and "output_path a \<noteq> []"
  shows "fst (ConcurApp_call fs a) =
     (if output_raises fs (output_path a) then 1
      else if output_not_a_file fs (output_path a) then 5
      else if inputs_raise fs a then 4
      else if inputs_bad fs a then 3
      else 0)"
proof -
  obtain st1 tr1 where r: "read_inputs fs a = (st1, tr1)"
    by (cases "read_inputs fs a") auto
  obtain out st2 tr2 where w: "write_output fs (output_path a) st1 = ((out, st2), tr2)"
    by (cases "write_output fs (output_path a) st1") auto
  have "fst (ConcurApp_call fs a) = st2"
    using assms r w by (simp add: ConcurApp_call_def)
  moreover have "st2 = (if output_raises fs (output_path a) then 1
      else if output_not_a_file fs (output_path a) then 5 else st1)"
    using write_output_status [of fs "output_path a" st1] w by simp
  moreover have "st1 = (if inputs_raise fs a then 4 else if inputs_bad fs a then 3 else 0)"
    using read_inputs_status [of fs a] r assms by simp
  ultimately show ?thesis by simp
qed

lemma call_events:
  "status a = 0 \<Longrightarrow> output_path a \<noteq> [] \<Longrightarrow>
   snd (snd (ConcurApp_call fs a)) =
     snd (read_inputs fs a) @ snd (write_output fs (output_path a) (fst (read_inputs fs a)))"
  by (simp add: ConcurApp_call_def split: prod.splits)

lemma handler_status: "handler lx a s = Inr s' \<Longrightarrow> status (app s') = status (app s)"
  by (cases a) (auto split: sum.splits)

lemma proc_status: "proc lx as s = (r, s') \<Longrightarrow> status (app s') = status (app s)"
proof (induction as arbitrary: s)
  case Nil
  then show ?case by simp
next
  case (Cons a as)
  show ?case
  proof (cases "handler lx a s")
    case (Inl e)
    with Cons.prems show ?thesis by simp
  next
    case (Inr s1)
    with Cons.prems have "proc lx as s1 = (r, s')" by simp
    then have "status (app s') = status (app s1)" by (rule Cons.IH)
    with handler_status [OF Inr] show ?thesis by simp
  qed
qed

lemma ctor_failed:
  "proc lx args (ctor_start h0) = (Some e, s) \<Longrightarrow>
   ConcurApp_ctor lx h0 args = ((app s)\<lparr>status := 2\<rparr>, [Log_parse_error e])"
  by (simp add: ConcurApp_ctor_def)

lemma ctor_parsed:
  assumes "proc lx args (ctor_start h0) = (None, s)"
  shows "fst (ConcurApp_ctor lx h0 args) =
           (if \<not> show_help s \<and> \<not> show_version s \<and> output_path (app s) = []
            then (app s)\<lparr>status := 1\<rparr> else app s)"
    and "status (app s) = 0"
proof -
  show "fst (ConcurApp_ctor lx h0 args) =
           (if \<not> show_help s \<and> \<not> show_version s \<and> output_path (app s) = []
            then (app s)\<lparr>status := 1\<rparr> else app s)"
    using assms by (simp add: ConcurApp_ctor_def no_output_path_def)
  show "status (app s) = 0"
    using proc_status [OF assms] by (simp add: ctor_start_def ConcurApp_init_def)
qed

subsection \<open>Bad input paths\<close>

lemma examined_simps [simp]:
  "examined [] = []"
  "examined (Exists p # tr) = p # examined tr"
  "examined (Is_regular_file p # tr) = examined tr"
  "examined (Log_error m p # tr) = examined tr"
  "examined (Log_exception m e # tr) = examined tr"
  "examined (tr @ tr') = examined tr @ examined tr'"
  by (simp_all add: examined_def map_filter_app)

lemma check_inputs_examined:
  "examined (snd (snd (check_inputs fs ins st))) = map fst (checked fs ins)"
proof (induction ins arbitrary: st)
  case Nil
  then show ?case by simp
next
  case (Cons pair ins)
  show ?case
  proof (cases "fs_status fs (fst pair)")
    case (Inl e)
    then show ?thesis by simp
  next
    case (Inr n)
    show ?thesis
      using Cons [of st] Cons [of 3] Inr
      unfolding check_inputs_Cons [OF Inr] by simp
  qed
qed

lemma check_inputs_logs_checked:
  assumes "p \<in> set (map fst (checked fs ins))"
  shows "(fs_status fs p = Inr missing \<longrightarrow>
            Log_error ''Input path does not exist!'' p \<in> set (snd (snd (check_inputs fs ins st)))) \<and>
         (fs_status fs p = Inr other \<longrightarrow>
            Log_error ''Input path is not a file!'' p \<in> set (snd (snd (check_inputs fs ins st))))"
  using assms
proof (induction ins arbitrary: st)
  case Nil
  then show ?case by simp
next
  case (Cons pair ins)
  show ?case
  proof (cases "fs_status fs (fst pair)")
    case (Inl e)
    then have "p = fst pair" using Cons.prems by simp
    then show ?thesis using Inl by simp
  next
    case (Inr n)
    show ?thesis
    proof (cases "p = fst pair")
      case True
      then show ?thesis
        using Inr unfolding check_inputs_Cons [OF Inr] by simp
    next
      case False
      then have "p \<in> set (map fst (checked fs ins))" using Cons.prems Inr by simp
      then show ?thesis
        using Cons.IH [of st] Cons.IH [of 3]
        unfolding check_inputs_Cons [OF Inr] by simp
    qed
  qed
qed

lemma read_inputs_examined:
  "examined (snd (read_inputs fs a)) = examined (snd (snd (check_inputs fs (inputs a) (status a))))"
  by (cases "check_inputs fs (inputs a) (status a)")
     (auto simp: read_inputs_def split: option.splits)

lemma read_inputs_keeps_log:
  "ev \<in> set (snd (snd (check_inputs fs (inputs a) (status a)))) \<Longrightarrow>
   ev \<in> set (snd (read_inputs fs a))"
  by (cases "check_inputs fs (inputs a) (status a)")
     (auto simp: read_inputs_def split: option.splits)

lemma checked_prefix: "\<exists>rest. ins = checked fs ins @ rest"
  by (induction ins) (auto split: sum.splits)

lemma checked_all:
  "\<not> list_ex (\<lambda>p. isl (fs_status fs p)) (map fst ins) \<Longrightarrow> checked fs ins = ins"
  by (induction ins) (auto split: sum.splits)

text \<open>
  Claim C5 says that for every list of input paths the loop, having recorded the error of
  a bad path, goes on to check the remaining ones. A status query that throws ends the
  loop: with a missing input, then one whose query throws, then another missing one, the
  last is never examined nor reported. The run still goes on to the output stage, and
  returns 4.
\<close>

theorem bad_input_does_not_abort_counterexample:
  "fs_status example_fs ''/in/absent.png'' = Inr missing \<and>
   fs_status example_fs ''/in/zzz.png'' = Inr missing \<and>
   ConcurApp_call example_fs (fst (ConcurApp_ctor example_parsers \<lparr>vx = 0, vy = 0\<rparr>
     [Input ''/in/absent.png'', Input ''/in/locked.png'', Input ''/in/zzz.png'', Small,
      Nth0 ''/out/new.ico''])) =
     (4,
      \<lparr>status = 4,
       inputs = [(''/in/absent.png'', automatic), (''/in/locked.png'', automatic),
                 (''/in/zzz.png'', automatic)],
       output_sizes = [(16, \<lparr>vx = 0, vy = 0\<rparr>)], output_path = ''/out/new.ico''\<rparr>,
      [Exists ''/in/absent.png'', Log_error ''Input path does not exist!'' ''/in/absent.png'',
       Exists ''/in/locked.png'', Log_exception ''while reading inputs!'' filesystem_error,
       Absolute ''/out/new.ico'', Exists ''/out/new.ico'', Exists ''/out'',
       Log_output_path ''/out/new.ico'']) \<and>
   Exists ''/in/zzz.png'' \<notin> set (snd (snd (ConcurApp_call example_fs
     (fst (ConcurApp_ctor example_parsers \<lparr>vx = 0, vy = 0\<rparr>
       [Input ''/in/absent.png'', Input ''/in/locked.png'', Input ''/in/zzz.png'', Small,
        Nth0 ''/out/new.ico'']))))) \<and>
   Log_error ''Input path does not exist!'' ''/in/zzz.png'' \<notin> set (snd (snd (ConcurApp_call
     example_fs (fst (ConcurApp_ctor example_parsers \<lparr>vx = 0, vy = 0\<rparr>
       [Input ''/in/absent.png'', Input ''/in/locked.png'', Input ''/in/zzz.png'', Small,
        Nth0 ''/out/new.ico''])))))"
  by (simp add: ConcurApp_ctor_def ctor_start_def ConcurApp_init_def set_input_def
      set_size_def example_parsers_def bounded_parsers_def no_output_path_def
      ConcurApp_call_def read_inputs_def write_output_def configure_output_cases
      example_fs_def emit_def)

text \<open>
  Claim C5, amended. A problem with an input path (the path is missing, or is not a
  regular file) is reported for that input and ends neither the loop nor the run. For
  every application that enters the input loop (status 0, an output path given) and every
  filesystem: the output stage follows the input stage, so the run goes on with
  \<^verbatim>\<open>fs::absolute(output_path_)\<close> instead of returning; the loop examines, in the order
  of the container, the inputs up to and including the first one whose status query
  throws, which is all of them when no query throws, however many of them are bad; it
  logs the error of every bad path among those; and it leaves status 4 when a query
  threw, else 3 when there is a bad path, else 0.
\<close>

theorem bad_input_does_not_abort:
  assumes "status a = 0" and "output_path a \<noteq> []"
  shows "(\<exists>tr. snd (snd (ConcurApp_call fs a)) =
               snd (read_inputs fs a) @ Absolute (output_path a) # tr) \<and>
         examined (snd (read_inputs fs a)) = map fst (checked fs (inputs a)) \<and>
         (\<exists>rest. inputs a = checked fs (inputs a) @ rest) \<and>
         (\<not> inputs_raise fs a \<longrightarrow> checked fs (inputs a) = inputs a) \<and>
         (\<forall>p\<in>set (map fst (checked fs (inputs a))).
            (fs_status fs p = Inr missing \<longrightarrow>
               Log_error ''Input path does not exist!'' p \<in> set (snd (read_inputs fs a))) \<and>
            (fs_status fs p = Inr other \<longrightarrow>
               Log_error ''Input path is not a file!'' p \<in> set (snd (read_inputs fs a)))) \<and>
         fst (read_inputs fs a) =
           (if inputs_raise fs a then 4 else if inputs_bad fs a then 3 else 0)"
proof -
  have proceeds: "\<exists>tr. snd (snd (ConcurApp_call fs a)) =
                       snd (read_inputs fs a) @ Absolute (output_path a) # tr"
    using call_events [OF assms, of fs]
      write_output_starts [of fs "output_path a" "fst (read_inputs fs a)"]
    by auto
  have ex: "examined (snd (read_inputs fs a)) = map fst (checked fs (inputs a))"
    using read_inputs_examined [of fs a] check_inputs_examined [of fs "inputs a" "status a"]
    by simp
  have pre: "\<exists>rest. inputs a = checked fs (inputs a) @ rest"
    by (rule checked_prefix)
  have all: "checked fs (inputs a) = inputs a" if "\<not> inputs_raise fs a"
    using that checked_all [of fs "inputs a"] by (simp add: inputs_raise_def)
  have logs: "\<forall>p\<in>set (map fst (checked fs (inputs a))).
      (fs_status fs p = Inr missing \<longrightarrow>
         Log_error ''Input path does not exist!'' p \<in> set (snd (read_inputs fs a))) \<and>
      (fs_status fs p = Inr other \<longrightarrow>
         Log_error ''Input path is not a file!'' p \<in> set (snd (read_inputs fs a)))"
    using check_inputs_logs_checked [of _ fs "inputs a" "status a"]
      read_inputs_keeps_log [of _ fs a]
    by blast
  have st: "fst (read_inputs fs a) =
      (if inputs_raise fs a then 4 else if inputs_bad fs a then 3 else 0)"
    using read_inputs_status [of fs a] assms(1) by simp
  from proceeds ex pre all logs st show ?thesis by blast
qed

theorem bad_input_does_not_abort_witness:
  "ConcurApp_call example_fs
     \<lparr>status = 0,
      inputs = [(''/in'', automatic), (''/in/absent.png'', png), (''/in/icon.png'', bitmap)],
      output_sizes = [(16, \<lparr>vx = 0, vy = 0\<rparr>)], output_path = ''/out/new.ico''\<rparr> =
     (3,
      \<lparr>status = 3,
       inputs = [(''/in'', automatic), (''/in/absent.png'', png), (''/in/icon.png'', bitmap)],
       output_sizes = [(16, \<lparr>vx = 0, vy = 0\<rparr>)], output_path = ''/out/new.ico''\<rparr>,
      [Exists ''/in'', Is_regular_file ''/in'', Log_error ''Input path is not a file!'' ''/in'',
       Exists ''/in/absent.png'', Log_error ''Input path does not exist!'' ''/in/absent.png'',
       Exists ''/in/icon.png'', Is_regular_file ''/in/icon.png'',
       Absolute ''/out/new.ico'', Exists ''/out/new.ico'', Exists ''/out'',
       Log_output_path ''/out/new.ico'']) \<and>
   examined (snd (read_inputs example_fs
     \<lparr>status = 0,
      inputs = [(''/in'', automatic), (''/in/absent.png'', png), (''/in/icon.png'', bitmap)],
      output_sizes = [(16, \<lparr>vx = 0, vy = 0\<rparr>)], output_path = ''/out/new.ico''\<rparr>)) =
     [''/in'', ''/in/absent.png'', ''/in/icon.png''] \<and>
   examined (snd (read_inputs example_fs
     \<lparr>status = 0,
      inputs = [(''/in/absent.png'', png), (''/in/locked.png'', automatic),
                (''/in/zzz.png'', bitmap)],
      output_sizes = [(16, \<lparr>vx = 0, vy = 0\<rparr>)], output_path = ''/out/new.ico''\<rparr>)) =
     [''/in/absent.png'', ''/in/locked.png'']"
proof -
  let ?a = "\<lparr>status = 0,
      inputs = [(''/in'', automatic), (''/in/absent.png'', png), (''/in/icon.png'', bitmap)],
      output_sizes = [(16, \<lparr>vx = 0, vy = 0\<rparr>)], output_path = ''/out/new.ico''\<rparr>"
  let ?b = "\<lparr>status = 0,
      inputs = [(''/in/absent.png'', png), (''/in/locked.png'', automatic),
                (''/in/zzz.png'', bitmap)],
      output_sizes = [(16, \<lparr>vx = 0, vy = 0\<rparr>)], output_path = ''/out/new.ico''\<rparr>"
  have st: "status ?a = 0" and out: "output_path ?a \<noteq> []"
    and stb: "status ?b = 0" and outb: "output_path ?b \<noteq> []"
    by simp_all
  have ca: "map fst (checked example_fs (inputs ?a)) =
      [''/in'', ''/in/absent.png'', ''/in/icon.png'']"
    and cb: "map fst (checked example_fs (inputs ?b)) = [''/in/absent.png'', ''/in/locked.png'']"
    by (simp_all add: example_fs_def)
  have run: "ConcurApp_call example_fs ?a =
     (3, ?a\<lparr>status := 3\<rparr>,
      [Exists ''/in'', Is_regular_file ''/in'', Log_error ''Input path is not a file!'' ''/in'',
       Exists ''/in/absent.png'', Log_error ''Input path does not exist!'' ''/in/absent.png'',
       Exists ''/in/icon.png'', Is_regular_file ''/in/icon.png'',
       Absolute ''/out/new.ico'', Exists ''/out/new.ico'', Exists ''/out'',
       Log_output_path ''/out/new.ico''])"
    by (simp add: ConcurApp_call_def read_inputs_def write_output_def configure_output_cases
        example_fs_def emit_def)
  from bad_input_does_not_abort [OF st out, of example_fs]
  have ea: "examined (snd (read_inputs example_fs ?a)) = map fst (checked example_fs (inputs ?a))"
    by blast
  from bad_input_does_not_abort [OF stb outb, of example_fs]
  have eb: "examined (snd (read_inputs example_fs ?b)) = map fst (checked example_fs (inputs ?b))"
    by blast
  from run ea eb show ?thesis
    unfolding ca cb by simp
qed

subsection \<open>The exit status\<close>

text \<open>
  Claim C6 maps each kind of error to one exit status: 3 for a missing input, 5 for an
  output path that cannot be written. The stages of a run overwrite \<^verbatim>\<open>status_\<close> one after
  the other, so that fails: with a missing input and a directory as the output path the
  status is 5, and when the directory of the output path cannot be created it is 1.
\<close>

theorem exit_status_by_last_failure_counterexample:
  "fs_status example_fs ''/in/absent.png'' = Inr missing \<and>
   exit_status example_parsers \<lparr>vx = 0, vy = 0\<rparr> example_fs
     [Input ''/in/absent.png'', Small, Nth0 ''/out''] = 5 \<and>
   fs_create_directories example_fs ''/ro/icons'' = Some filesystem_error \<and>
   exit_status example_parsers \<lparr>vx = 0, vy = 0\<rparr> example_fs
     [Input ''/in/icon.png'', Small, Nth0 ''/ro/icons/new.ico''] = 1"
  by (simp add: exit_status_def ConcurApp_ctor_def ctor_start_def ConcurApp_init_def
      set_input_def example_parsers_def
      bounded_parsers_def set_size_def no_output_path_def ConcurApp_call_def read_inputs_def
      write_output_def configure_output_cases example_fs_def emit_def)

text \<open>
  Claim C6, amended. The exit status is 2 when argument parsing fails. When it succeeds
  and leaves no output path, the status is 1, or 0 if help or the version was asked for.
  Otherwise the last stage that failed decides: 1 when a call of the output stage throws
  (resolving the output path, querying it or its parent, creating the parent directory);
  else 5 when the output path exists and is not a regular file; else 4 when a status
  query on an input throws; else 3 when an input path is missing or not a regular file;
  else 0.
\<close>

theorem exit_status_by_last_failure:
  "exit_status lx h0 fs args =
     (case proc lx args (ctor_start h0) of
        (Some e, s) \<Rightarrow> 2
      | (None, s) \<Rightarrow>
          if output_path (app s) = [] then (if show_help s \<or> show_version s then 0 else 1)
          else if output_raises fs (output_path (app s)) then 1
          else if output_not_a_file fs (output_path (app s)) then 5
          else if inputs_raise fs (app s) then 4
          else if inputs_bad fs (app s) then 3
          else 0)"
proof -
  obtain r s where p: "proc lx args (ctor_start h0) = (r, s)"
    by (cases "proc lx args (ctor_start h0)") auto
  show ?thesis
  proof (cases r)
    case (Some e)
    then show ?thesis
      using p ctor_failed [of lx args h0 e s]
      by (simp add: exit_status_def ConcurApp_call_def)
  next
    case None
    note a = ctor_parsed [OF p [unfolded None]]
    show ?thesis
    proof (cases "output_path (app s) = []")
      case True
      then show ?thesis
        using p None a by (simp add: exit_status_def ConcurApp_call_def)
    next
      case False
      then have "fst (ConcurApp_ctor lx h0 args) = app s"
        using a(1) by simp
      then show ?thesis
        using p None False call_status [OF a(2) False, of fs]
        by (simp add: exit_status_def)
    qed
  qed
qed

theorem exit_status_by_last_failure_witness:
  "exit_status example_parsers \<lparr>vx = 0, vy = 0\<rparr> example_fs
     [Input ''/in/icon.png'', Small, Nth0 ''/out/new.ico''] = 0 \<and>
   exit_status example_parsers \<lparr>vx = 0, vy = 0\<rparr> example_fs
     [Input ''/in/icon.png'', Size ''300'', Nth0 ''/out/new.ico''] = 2 \<and>
   exit_status example_parsers \<lparr>vx = 0, vy = 0\<rparr> example_fs
     [Input ''/in/absent.png'', Small, Nth0 ''/out/new.ico''] = 3 \<and>
   exit_status example_parsers \<lparr>vx = 0, vy = 0\<rparr> example_fs
     [Input ''/in/absent.png'', Input ''/in/locked.png'', Small, Nth0 ''/out/new.ico''] = 4 \<and>
   exit_status example_parsers \<lparr>vx = 0, vy = 0\<rparr> example_fs
     [Input ''/in/icon.png'', Small, Nth0 ''/out''] = 5 \<and>
   exit_status example_parsers \<lparr>vx = 0, vy = 0\<rparr> example_fs
     [Input ''/in/icon.png'', Small] = 1"
  by (simp add: exit_status_by_last_failure example_parsers_def bounded_parsers_def example_lex_U16_def
        example_lex_F32_def parse_bounded_numeric_string_def
      ctor_start_def ConcurApp_init_def set_input_def set_size_def
      inputs_raise_def inputs_bad_def output_raises_def output_not_a_file_def example_fs_def)

subsection \<open>The range of a size argument\<close>

lemma parse_bounded_accepts:
  "parse_bounded_numeric_string lexer str lo hi = Inr v \<longleftrightarrow>
   lexer str = Some v \<and> lo \<le> v \<and> v \<le> hi"
  by (auto simp: parse_bounded_numeric_string_def split: option.splits)

lemma parse_bounded_rejects:
  "(\<exists>e. parse_bounded_numeric_string lexer str lo hi = Inl e) \<longleftrightarrow>
   (\<forall>v. lexer str = Some v \<longrightarrow> v < lo \<or> hi < v)"
  by (auto simp: parse_bounded_numeric_string_def split: option.splits)

lemma handler_sizes_in_range:
  assumes "handler (bounded_parsers lu lf pk) a s = Inr s'"
    and "\<forall>k\<in>set (map fst (output_sizes (app s))). 1 \<le> k \<and> k \<le> 256"
  shows "\<forall>k\<in>set (map fst (output_sizes (app s'))). 1 \<le> k \<and> k \<le> 256"
proof (cases a)
  case (Size str)
  then obtain n where "parse_bounded_numeric_string lu str 1 256 = Inr n"
    and s': "s' = set_size n s"
    using assms(1) by (auto split: sum.splits)
  then have "1 \<le> n \<and> n \<le> 256" by (simp add: parse_bounded_accepts)
  then show ?thesis
    using assms(2) unfolding s' set_size_simps keys_map_assign by simp
next
  case All
  then show ?thesis
    using assms unfolding All by (auto simp: keys_map_assign simp del: set_map)
qed (use assms in \<open>auto split: sum.splits simp: keys_map_assign simp del: set_map\<close>)

lemma proc_sizes_in_range:
  assumes "proc (bounded_parsers lu lf pk) as s = (r, s')"
    and "\<forall>k\<in>set (map fst (output_sizes (app s))). 1 \<le> k \<and> k \<le> 256"
  shows "\<forall>k\<in>set (map fst (output_sizes (app s'))). 1 \<le> k \<and> k \<le> 256"
  using assms
proof (induction as arbitrary: s)
  case Nil
  then show ?case by simp
next
  case (Cons a as)
  show ?case
  proof (cases "handler (bounded_parsers lu lf pk) a s")
    case (Inl e)
    with Cons.prems show ?thesis by simp
  next
    case (Inr s1)
    with Cons.prems(1) have "proc (bounded_parsers lu lf pk) as s1 = (r, s')" by simp
    then show ?thesis
      using handler_sizes_in_range [OF Inr Cons.prems(2)] by (rule Cons.IH)
  qed
qed

text \<open>
  Claim C7. Every accepted size argument parses to an edge length from 1 to 256, and a
  size argument outside that range is rejected during argument parsing. After every
  sequence of arguments the processor finished, all requested edge lengths lie in
  1..256; a \<^verbatim>\<open>-s\<close> argument that is accepted next denotes a number in 1..256 and records
  that number; and one whose number lies outside (or that denotes none) makes the
  processor stop there: the requests stay as they were before it, the constructor sets
  status 2, and the process exits with 2.
\<close>

theorem size_argument_range:
  assumes "proc (bounded_parsers lu lf pk) pre (ctor_start h0) = (None, s)"
  shows "(\<forall>k\<in>set (map fst (output_sizes (app s))). 1 \<le> k \<and> k \<le> 256) \<and>
         (\<forall>s'. handler (bounded_parsers lu lf pk) (Size str) s = Inr s' \<longrightarrow>
            (\<exists>n. lu str = Some n \<and> 1 \<le> n \<and> n \<le> 256 \<and> s' = set_size n s)) \<and>
         ((\<forall>n. lu str = Some n \<longrightarrow> n < 1 \<or> 256 < n) \<longrightarrow>
            (\<exists>e. proc (bounded_parsers lu lf pk) (pre @ Size str # post) (ctor_start h0) = (Some e, s) \<and>
                 ConcurApp_ctor (bounded_parsers lu lf pk) h0 (pre @ Size str # post) =
                   ((app s)\<lparr>status := 2\<rparr>, [Log_parse_error e])) \<and>
            output_sizes (fst (ConcurApp_ctor (bounded_parsers lu lf pk) h0 (pre @ Size str # post))) =
              output_sizes (app s) \<and>
            exit_status (bounded_parsers lu lf pk) h0 fs (pre @ Size str # post) = 2)"
proof -
  have range: "\<forall>k\<in>set (map fst (output_sizes (app s))). 1 \<le> k \<and> k \<le> 256"
    using proc_sizes_in_range [OF assms] by (simp add: ctor_start_def ConcurApp_init_def)
  have accepted: "\<exists>n. lu str = Some n \<and> 1 \<le> n \<and> n \<le> 256 \<and> s' = set_size n s"
    if "handler (bounded_parsers lu lf pk) (Size str) s = Inr s'" for s'
    using that by (auto split: sum.splits simp: parse_bounded_accepts)
  have rejected: "(\<exists>e. proc (bounded_parsers lu lf pk) (pre @ Size str # post) (ctor_start h0) = (Some e, s) \<and>
                 ConcurApp_ctor (bounded_parsers lu lf pk) h0 (pre @ Size str # post) =
                   ((app s)\<lparr>status := 2\<rparr>, [Log_parse_error e])) \<and>
            output_sizes (fst (ConcurApp_ctor (bounded_parsers lu lf pk) h0 (pre @ Size str # post))) =
              output_sizes (app s) \<and>
            exit_status (bounded_parsers lu lf pk) h0 fs (pre @ Size str # post) = 2"
    if out: "\<forall>n. lu str = Some n \<longrightarrow> n < 1 \<or> 256 < n"
  proof -
    from out obtain e where "parse_bounded_numeric_string lu str 1 256 = Inl e"
      using parse_bounded_rejects [of lu str 1 256] by blast
    then have "handler (bounded_parsers lu lf pk) (Size str) s = Inl e" by simp
    then have p: "proc (bounded_parsers lu lf pk) (pre @ Size str # post) (ctor_start h0) = (Some e, s)"
      using proc_stops [OF assms] by blast
    have c: "ConcurApp_ctor (bounded_parsers lu lf pk) h0 (pre @ Size str # post) =
        ((app s)\<lparr>status := 2\<rparr>, [Log_parse_error e])"
      using p by (rule ctor_failed)
    have "exit_status (bounded_parsers lu lf pk) h0 fs (pre @ Size str # post) = 2"
      using c by (simp add: exit_status_def ConcurApp_call_def)
    with p c show ?thesis by auto
  qed
  from range accepted rejected show ?thesis by blast
qed

theorem size_argument_range_witness:
  "proc example_parsers [Small, Size ''128''] (ctor_start \<lparr>vx = 0, vy = 0\<rparr>) =
     (None, \<lparr>app = \<lparr>status = 0, inputs = [],
                   output_sizes = [(16, \<lparr>vx = 0, vy = 0\<rparr>), (128, \<lparr>vx = 0, vy = 0\<rparr>)],
                   output_path = []\<rparr>,
            hotspot = \<lparr>vx = 0, vy = 0\<rparr>, show_version = False, show_help = False,
            help_query = [], proc_verbose = False\<rparr>) \<and>
   output_sizes (fst (ConcurApp_ctor example_parsers \<lparr>vx = 0, vy = 0\<rparr>
     ([Small, Size ''128''] @ Size ''300'' # [Nth0 ''/out/new.ico'']))) =
     [(16, \<lparr>vx = 0, vy = 0\<rparr>), (128, \<lparr>vx = 0, vy = 0\<rparr>)] \<and>
   exit_status example_parsers \<lparr>vx = 0, vy = 0\<rparr> example_fs
     ([Small, Size ''128''] @ Size ''300'' # [Nth0 ''/out/new.ico'']) = 2 \<and>
   exit_status example_parsers \<lparr>vx = 0, vy = 0\<rparr> example_fs
     ([Small, Size ''128''] @ Size ''0'' # [Nth0 ''/out/new.ico'']) = 2"
proof -
  let ?s = "\<lparr>app = \<lparr>status = 0, inputs = [],
                   output_sizes = [(16, \<lparr>vx = 0, vy = 0\<rparr>), (128, \<lparr>vx = 0, vy = 0\<rparr>)],
                   output_path = []\<rparr>,
            hotspot = \<lparr>vx = 0, vy = 0\<rparr>, show_version = False, show_help = False,
            help_query = [], proc_verbose = False\<rparr>"
  have run: "proc example_parsers [Small, Size ''128''] (ctor_start \<lparr>vx = 0, vy = 0\<rparr>) = (None, ?s)"
    by (simp add: example_parsers_def bounded_parsers_def example_lex_U16_def
        example_lex_F32_def parse_bounded_numeric_string_def ctor_start_def
        ConcurApp_init_def set_size_def)
  have big: "\<forall>n. example_lex_U16 ''300'' = Some n \<longrightarrow> n < 1 \<or> 256 < n"
    and zero: "\<forall>n. example_lex_U16 ''0'' = Some n \<longrightarrow> n < 1 \<or> 256 < n"
    by (simp_all add: example_parsers_def bounded_parsers_def example_lex_U16_def
        example_lex_F32_def)
  from size_argument_range [OF run [unfolded example_parsers_def],
      where str = "''300''" and post = "[Nth0 ''/out/new.ico'']" and fs = example_fs,
      folded example_parsers_def] big
  have a: "output_sizes (fst (ConcurApp_ctor example_parsers \<lparr>vx = 0, vy = 0\<rparr>
       ([Small, Size ''128''] @ Size ''300'' # [Nth0 ''/out/new.ico'']))) = output_sizes (app ?s)"
    and b: "exit_status example_parsers \<lparr>vx = 0, vy = 0\<rparr> example_fs
       ([Small, Size ''128''] @ Size ''300'' # [Nth0 ''/out/new.ico'']) = 2"
    by blast+
  from size_argument_range [OF run [unfolded example_parsers_def],
      where str = "''0''" and post = "[Nth0 ''/out/new.ico'']" and fs = example_fs,
      folded example_parsers_def] zero
  have c: "exit_status example_parsers \<lparr>vx = 0, vy = 0\<rparr> example_fs
       ([Small, Size ''128''] @ Size ''0'' # [Nth0 ''/out/new.ico'']) = 2"
    by blast
  from run a b c show ?thesis by simp
qed

subsection \<open>The range of a hotspot argument\<close>

lemma set_size_normalized:
  "hotspots_normalized s \<Longrightarrow> hotspots_normalized (set_size k s)"
  using map_assign_values [of "output_sizes (app s)" normalized "hotspot s" k]
  by (simp add: hotspots_normalized_def)

lemma handler_normalized:
  assumes "handler (bounded_parsers lu lf pk) a s = Inr s'" and "hotspots_normalized s"
  shows "hotspots_normalized s'"
proof (cases a)
  case (Hotspot_x str)
  then show ?thesis
    using assms
    by (auto split: sum.splits simp: parse_bounded_accepts normalized_def hotspots_normalized_def)
next
  case (Hotspot_y str)
  then show ?thesis
    using assms
    by (auto split: sum.splits simp: parse_bounded_accepts normalized_def hotspots_normalized_def)
next
  case (Size str)
  then show ?thesis
    using assms by (auto split: sum.splits intro: set_size_normalized)
next
  case Small
  then show ?thesis using assms by (auto intro: set_size_normalized)
next
  case Medium
  then show ?thesis using assms by (auto intro: set_size_normalized)
next
  case Normal
  then show ?thesis using assms by (auto intro: set_size_normalized)
next
  case Large
  then show ?thesis using assms by (auto intro: set_size_normalized)
next
  case Extra_large
  then show ?thesis using assms by (auto intro: set_size_normalized)
next
  case All
  then show ?thesis
    using assms by (auto intro!: set_size_normalized)
qed (use assms in \<open>auto simp: hotspots_normalized_def\<close>)

lemma proc_normalized:
  assumes "proc (bounded_parsers lu lf pk) as s = (r, s')" and "hotspots_normalized s"
  shows "hotspots_normalized s'"
  using assms
proof (induction as arbitrary: s)
  case Nil
  then show ?case by simp
next
  case (Cons a as)
  show ?case
  proof (cases "handler (bounded_parsers lu lf pk) a s")
    case (Inl e)
    with Cons.prems show ?thesis by simp
  next
    case (Inr s1)
    with Cons.prems(1) have p: "proc (bounded_parsers lu lf pk) as s1 = (r, s')" by simp
    from handler_normalized [OF Inr Cons.prems(2)]
    show ?thesis using Cons.IH [OF p] by blast
  qed
qed

text \<open>
  Claim C8. Every accepted hotspot-X or hotspot-Y argument parses to a value in
  \<open>[0, 1]\<close>, and an argument outside that range is rejected during argument parsing. A
  \<^verbatim>\<open>-x\<close> or \<^verbatim>\<open>-y\<close> argument that is accepted denotes a number in \<open>[0, 1]\<close> and sets that
  coordinate, and only it; so when the initial hotspot is normalized, the hotspot in
  effect and every recorded hotspot are. An argument whose number lies outside (or that
  denotes none) makes the processor stop there: the state, the hotspot with it, is as it
  was before the argument, and the process exits with 2.
\<close>

theorem hotspot_argument_range:
  assumes "proc (bounded_parsers lu lf pk) pre (ctor_start h0) = (None, s)"
  shows "(\<forall>s'. handler (bounded_parsers lu lf pk) (Hotspot_x str) s = Inr s' \<longrightarrow>
            (\<exists>v. lf str = Some v \<and> 0 \<le> v \<and> v \<le> 1 \<and>
                 s' = s\<lparr>hotspot := (hotspot s)\<lparr>vx := v\<rparr>\<rparr>)) \<and>
         (\<forall>s'. handler (bounded_parsers lu lf pk) (Hotspot_y str) s = Inr s' \<longrightarrow>
            (\<exists>v. lf str = Some v \<and> 0 \<le> v \<and> v \<le> 1 \<and>
                 s' = s\<lparr>hotspot := (hotspot s)\<lparr>vy := v\<rparr>\<rparr>)) \<and>
         (normalized h0 \<longrightarrow> hotspots_normalized s) \<and>
         ((\<forall>v. lf str = Some v \<longrightarrow> v < 0 \<or> 1 < v) \<longrightarrow>
            (\<exists>e. proc (bounded_parsers lu lf pk) (pre @ Hotspot_x str # post) (ctor_start h0) = (Some e, s)) \<and>
            (\<exists>e. proc (bounded_parsers lu lf pk) (pre @ Hotspot_y str # post) (ctor_start h0) = (Some e, s)) \<and>
            exit_status (bounded_parsers lu lf pk) h0 fs (pre @ Hotspot_x str # post) = 2 \<and>
            exit_status (bounded_parsers lu lf pk) h0 fs (pre @ Hotspot_y str # post) = 2)"
proof -
  have ax: "\<exists>v. lf str = Some v \<and> 0 \<le> v \<and> v \<le> 1 \<and>
                 s' = s\<lparr>hotspot := (hotspot s)\<lparr>vx := v\<rparr>\<rparr>"
    if "handler (bounded_parsers lu lf pk) (Hotspot_x str) s = Inr s'" for s'
    using that by (auto split: sum.splits simp: parse_bounded_accepts)
  have ay: "\<exists>v. lf str = Some v \<and> 0 \<le> v \<and> v \<le> 1 \<and>
                 s' = s\<lparr>hotspot := (hotspot s)\<lparr>vy := v\<rparr>\<rparr>"
    if "handler (bounded_parsers lu lf pk) (Hotspot_y str) s = Inr s'" for s'
    using that by (auto split: sum.splits simp: parse_bounded_accepts)
  have inv: "hotspots_normalized s" if "normalized h0"
    using proc_normalized [OF assms] that
    by (simp add: hotspots_normalized_def ctor_start_def ConcurApp_init_def)
  have rejected: "(\<exists>e. proc (bounded_parsers lu lf pk) (pre @ Hotspot_x str # post) (ctor_start h0) = (Some e, s)) \<and>
            (\<exists>e. proc (bounded_parsers lu lf pk) (pre @ Hotspot_y str # post) (ctor_start h0) = (Some e, s)) \<and>
            exit_status (bounded_parsers lu lf pk) h0 fs (pre @ Hotspot_x str # post) = 2 \<and>
            exit_status (bounded_parsers lu lf pk) h0 fs (pre @ Hotspot_y str # post) = 2"
    if out: "\<forall>v. lf str = Some v \<longrightarrow> v < 0 \<or> 1 < v"
  proof -
    from out obtain e where e: "parse_bounded_numeric_string lf str 0 1 = Inl e"
      using parse_bounded_rejects [of lf str 0 1] by blast
    have px: "proc (bounded_parsers lu lf pk) (pre @ Hotspot_x str # post) (ctor_start h0) = (Some e, s)"
      using proc_stops [OF assms, of "Hotspot_x str" e post] e by simp
    have py: "proc (bounded_parsers lu lf pk) (pre @ Hotspot_y str # post) (ctor_start h0) = (Some e, s)"
      using proc_stops [OF assms, of "Hotspot_y str" e post] e by simp
    have "exit_status (bounded_parsers lu lf pk) h0 fs (pre @ Hotspot_x str # post) = 2"
      using ctor_failed [OF px] by (simp add: exit_status_def ConcurApp_call_def)
    moreover have "exit_status (bounded_parsers lu lf pk) h0 fs (pre @ Hotspot_y str # post) = 2"
      using ctor_failed [OF py] by (simp add: exit_status_def ConcurApp_call_def)
    ultimately show ?thesis using px py by blast
  qed
  from ax ay inv rejected show ?thesis by blast
qed

theorem hotspot_argument_range_witness:
  "proc example_parsers [Hotspot_x ''2/16'', Small] (ctor_start \<lparr>vx = 0, vy = 0\<rparr>) =
     (None, \<lparr>app = \<lparr>status = 0, inputs = [],
                   output_sizes = [(16, \<lparr>vx = 1 / 8, vy = 0\<rparr>)], output_path = []\<rparr>,
            hotspot = \<lparr>vx = 1 / 8, vy = 0\<rparr>, show_version = False, show_help = False,
            help_query = [], proc_verbose = False\<rparr>) \<and>
   (\<exists>e. proc example_parsers ([Hotspot_x ''2/16'', Small] @ Hotspot_x ''2'' # [Medium])
          (ctor_start \<lparr>vx = 0, vy = 0\<rparr>) =
        (Some e, \<lparr>app = \<lparr>status = 0, inputs = [],
                   output_sizes = [(16, \<lparr>vx = 1 / 8, vy = 0\<rparr>)], output_path = []\<rparr>,
            hotspot = \<lparr>vx = 1 / 8, vy = 0\<rparr>, show_version = False, show_help = False,
            help_query = [], proc_verbose = False\<rparr>)) \<and>
   exit_status example_parsers \<lparr>vx = 0, vy = 0\<rparr> example_fs
     ([Hotspot_x ''2/16'', Small] @ Hotspot_x ''2'' # [Medium]) = 2"
proof -
  let ?s = "\<lparr>app = \<lparr>status = 0, inputs = [],
                   output_sizes = [(16, \<lparr>vx = 1 / 8, vy = 0\<rparr>)], output_path = []\<rparr>,
            hotspot = \<lparr>vx = 1 / 8, vy = 0\<rparr>, show_version = False, show_help = False,
            help_query = [], proc_verbose = False\<rparr>"
  have run: "proc example_parsers [Hotspot_x ''2/16'', Small] (ctor_start \<lparr>vx = 0, vy = 0\<rparr>) =
      (None, ?s)"
    by (simp add: example_parsers_def bounded_parsers_def example_lex_U16_def
        example_lex_F32_def parse_bounded_numeric_string_def ctor_start_def
        ConcurApp_init_def set_size_def)
  have two: "\<forall>v. example_lex_F32 ''2'' = Some v \<longrightarrow> v < 0 \<or> 1 < v"
    by (simp add: example_parsers_def bounded_parsers_def example_lex_U16_def
        example_lex_F32_def)
  from hotspot_argument_range [OF run [unfolded example_parsers_def],
      where str = "''2''" and post = "[Medium]" and fs = example_fs,
      folded example_parsers_def] two
  have "\<exists>e. proc example_parsers ([Hotspot_x ''2/16'', Small] @ Hotspot_x ''2'' # [Medium])
          (ctor_start \<lparr>vx = 0, vy = 0\<rparr>) = (Some e, ?s)"
    and "exit_status example_parsers \<lparr>vx = 0, vy = 0\<rparr> example_fs
     ([Hotspot_x ''2/16'', Small] @ Hotspot_x ''2'' # [Medium]) = 2"
    by blast+
  with run show ?thesis by blast
qed

subsection \<open>No output path\<close>

lemma handler_no_request:
  "handler lx a s = Inr s' \<Longrightarrow> \<not> explicit_request a \<Longrightarrow>
   show_help s' = show_help s \<and> show_version s' = show_version s \<and> help_query s' = help_query s"
  by (cases a) (auto split: sum.splits simp: explicit_request_def)

lemma handler_no_output_path:
  "handler lx a s = Inr s' \<Longrightarrow> \<not> output_path_argument a \<Longrightarrow>
   output_path (app s') = output_path (app s)"
  by (cases a) (auto split: sum.splits simp: output_path_argument_def)

lemma proc_no_request:
  "proc lx as s = (None, s') \<Longrightarrow> \<forall>a\<in>set as. \<not> explicit_request a \<Longrightarrow>
   show_help s' = show_help s \<and> show_version s' = show_version s \<and> help_query s' = help_query s"
proof (induction as arbitrary: s)
  case Nil
  then show ?case by simp
next
  case (Cons a as)
  from proc_Cons_None [OF Cons.prems(1)] obtain s1
    where h: "handler lx a s = Inr s1" and p: "proc lx as s1 = (None, s')" by blast
  show ?case
    using Cons.IH [OF p] handler_no_request [OF h] Cons.prems(2) by simp
qed

lemma proc_no_output_path:
  "proc lx as s = (None, s') \<Longrightarrow> \<forall>a\<in>set as. \<not> output_path_argument a \<Longrightarrow>
   output_path (app s') = output_path (app s)"
proof (induction as arbitrary: s)
  case Nil
  then show ?case by simp
next
  case (Cons a as)
  from proc_Cons_None [OF Cons.prems(1)] obtain s1
    where h: "handler lx a s = Inr s1" and p: "proc lx as s1 = (None, s')" by blast
  show ?case
    using Cons.IH [OF p] handler_no_output_path [OF h] Cons.prems(2) by simp
qed

text \<open>
  Claim C9. If argument parsing succeeds, no argument gives an output path and none asks
  for help or the version, the constructor sets status 1 and writes the help text with
  the licence sections registered (\<^verbatim>\<open>proc.describe\<close> with the empty query, after the
  \<^verbatim>\<open>license\<close> calls of lines 173-179); calling the application then returns 1 with no
  event: nothing is read, nothing is prepared for output.
\<close>

theorem no_output_path_shows_help:
  assumes "proc lx args (ctor_start h0) = (None, s)"
    and "\<forall>a\<in>set args. \<not> output_path_argument a \<and> \<not> explicit_request a"
  shows "ConcurApp_ctor lx h0 args = ((app s)\<lparr>status := 1\<rparr>, [Describe [] True]) \<and>
         ConcurApp_call fs ((app s)\<lparr>status := 1\<rparr>) = (1, (app s)\<lparr>status := 1\<rparr>, []) \<and>
         exit_status lx h0 fs args = 1"
proof -
  have "show_help s = False \<and> show_version s = False \<and> help_query s = []"
    using proc_no_request [OF assms(1)] assms(2) by (simp add: ctor_start_def)
  moreover have "output_path (app s) = []"
    using proc_no_output_path [OF assms(1)] assms(2)
    by (simp add: ctor_start_def ConcurApp_init_def)
  ultimately have c: "ConcurApp_ctor lx h0 args = ((app s)\<lparr>status := 1\<rparr>, [Describe [] True])"
    using assms(1) by (simp add: ConcurApp_ctor_def no_output_path_def describe_def)
  have r: "ConcurApp_call fs ((app s)\<lparr>status := 1\<rparr>) = (1, (app s)\<lparr>status := 1\<rparr>, [])"
    by (simp add: ConcurApp_call_def)
  from c r show ?thesis by (simp add: exit_status_def)
qed

theorem no_output_path_shows_help_witness:
  "ConcurApp_ctor example_parsers \<lparr>vx = 0, vy = 0\<rparr> [Input ''/in/icon.png'', Small] =
     (\<lparr>status = 1, inputs = [(''/in/icon.png'', automatic)],
       output_sizes = [(16, \<lparr>vx = 0, vy = 0\<rparr>)], output_path = []\<rparr>,
      [Describe [] True]) \<and>
   ConcurApp_call example_fs
     \<lparr>status = 1, inputs = [(''/in/icon.png'', automatic)],
      output_sizes = [(16, \<lparr>vx = 0, vy = 0\<rparr>)], output_path = []\<rparr> =
     (1, \<lparr>status = 1, inputs = [(''/in/icon.png'', automatic)],
          output_sizes = [(16, \<lparr>vx = 0, vy = 0\<rparr>)], output_path = []\<rparr>, [])"
proof -
  let ?args = "[Input ''/in/icon.png'', Small]"
  let ?s = "\<lparr>app = \<lparr>status = 0, inputs = [(''/in/icon.png'', automatic)],
                  output_sizes = [(16, \<lparr>vx = 0, vy = 0\<rparr>)], output_path = []\<rparr>,
           hotspot = \<lparr>vx = 0, vy = 0\<rparr>, show_version = False, show_help = False,
           help_query = [], proc_verbose = False\<rparr>"
  have run: "proc example_parsers ?args (ctor_start \<lparr>vx = 0, vy = 0\<rparr>) = (None, ?s)"
    by (simp add: ctor_start_def ConcurApp_init_def set_input_def example_parsers_def
      bounded_parsers_def set_size_def)
  have plain: "\<forall>a\<in>set ?args. \<not> output_path_argument a \<and> \<not> explicit_request a"
    by (simp add: output_path_argument_def explicit_request_def)
  from no_output_path_shows_help [OF run plain, of example_fs]
  show ?thesis by simp
qed

subsection \<open>A failed construction\<close>

text \<open>
  Claim C10. If the constructor left a status other than 0, calling the application
  returns that status at once: the object (its inputs, sizes and output path) is
  unchanged and the run has no event, so no input path is examined and nothing at the
  output path is touched or created.
\<close>

theorem nonzero_status_returns_at_once:
  assumes "status a \<noteq> 0"
  shows "ConcurApp_call fs a = (status a, a, [])"
  using assms by (simp add: ConcurApp_call_def)

theorem nonzero_status_returns_at_once_witness:
  "status (fst (ConcurApp_ctor example_parsers \<lparr>vx = 0, vy = 0\<rparr>
     [Input ''/in/absent.png'', Rejected OptionException, Nth0 ''/out''])) = 2 \<and>
   ConcurApp_call example_fs
     (fst (ConcurApp_ctor example_parsers \<lparr>vx = 0, vy = 0\<rparr>
        [Input ''/in/absent.png'', Rejected OptionException, Nth0 ''/out''])) =
     (2, \<lparr>status = 2, inputs = [(''/in/absent.png'', automatic)], output_sizes = [],
          output_path = []\<rparr>, [])"
proof -
  let ?a = "fst (ConcurApp_ctor example_parsers \<lparr>vx = 0, vy = 0\<rparr>
     [Input ''/in/absent.png'', Rejected OptionException, Nth0 ''/out''])"
  have a: "?a = \<lparr>status = 2, inputs = [(''/in/absent.png'', automatic)], output_sizes = [],
                 output_path = []\<rparr>"
    by (simp add: ConcurApp_ctor_def ctor_start_def ConcurApp_init_def set_input_def example_parsers_def
      bounded_parsers_def)
  then have "status ?a \<noteq> 0" by simp
  from nonzero_status_returns_at_once [OF this, of example_fs] a
  show ?thesis by simp
qed

end
